theory Spec2Isabelle
  imports Complex_Main "HOL-Library.Product_Lexorder"
begin

section \<open>Camoco locality command: data model\<close>

text \<open>
  The model follows \<^verbatim>\<open>src/camoco/cli/commands/locality.py\<close>. A pandas table is a list of
  rows; a row is a record with one field per column. Python integers are \<^typ>\<open>int\<close>.
  Floats are exact rationals (\<^typ>\<open>rat\<close>), so rounding is outside the model; the two
  columns that the standardizer feeds, \<open>bs_std\<close> and \<open>zscore\<close>, can also hold the values of
  a float that are no number. A column that a table does not have yet holds a
  placeholder that the step which adds the column overwrites. Every raise of the source
  is an \<open>Inl\<close> value.
\<close>

datatype py_error =
  ZeroDivisionError | ValueError | TypeError | KeyError | FileExistsError | IsADirectoryError

text \<open>
  The iteration label of a table: \<^verbatim>\<open>'emp'\<close>, \<^verbatim>\<open>'bs'+str(x)\<close> and \<^verbatim>\<open>'fdr'+str(x)\<close>.
\<close>

datatype iter_label = Emp | Bs nat | Fdr nat

text \<open>A float: a number, an infinity or NaN.\<close>

datatype pyfloat = Fin rat | PInf | NInf | NaN

record locality_record =
  gene :: string
  iter_name :: iter_label
  local_deg :: rat
  global_deg :: rat
  fitted :: rat
  resid :: rat
  window :: int
  bs_std :: pyfloat
  zscore :: pyfloat
  fdr :: "rat option"

section \<open>Windowing of the bootstrap population (lines 127 to 136)\<close>

text \<open>
  \<^verbatim>\<open>int(i/window_ticks)\<close>: true division followed by truncation towards zero.
\<close>

definition int_truediv :: "int \<Rightarrow> int \<Rightarrow> py_error + int" where
  "int_truediv i t =
     (if t = 0 then Inl ZeroDivisionError
      else Inr (sgn i * sgn t * (\<bar>i\<bar> div \<bar>t\<bar>)))"

text \<open>
  \<^verbatim>\<open>[f(i) for i in ...]\<close> where \<open>f\<close> may raise: the first error ends the comprehension.
\<close>

fun map_result :: "('a \<Rightarrow> py_error + 'b) \<Rightarrow> 'a list \<Rightarrow> py_error + 'b list" where
  "map_result f [] = Inr []"
| "map_result f (x # xs) =
     (case f x of
        Inl e \<Rightarrow> Inl e
      | Inr y \<Rightarrow> (case map_result f xs of Inl e \<Rightarrow> Inl e | Inr ys \<Rightarrow> Inr (y # ys)))"

text \<open>
  \<^verbatim>\<open>
  num_windows = len(bsloc) // args.regression_window_size
  window_ticks = len(bsloc) // num_windows
  bsloc['window'] = [int(i/window_ticks) for i in range(len(bsloc))]
  \<close>
  The result is \<open>window_ticks\<close> (used again at line 198) and the window column, for a
  population of \<open>n\<close> rows. \<open>//\<close> is floor division, as \<open>div\<close> on \<^typ>\<open>int\<close>.
\<close>

definition assign_windows :: "nat \<Rightarrow> int \<Rightarrow> py_error + (int \<times> int list)" where
  "assign_windows n w =
     (if w = 0 then Inl ZeroDivisionError
      else let num_windows = int n div w in
        if num_windows = 0 then Inl ZeroDivisionError
        else let window_ticks = int n div num_windows in
          (case map_result (\<lambda>i. int_truediv (int i) window_ticks) [0..<n] of
             Inl e \<Rightarrow> Inl e
           | Inr ws \<Rightarrow> Inr (window_ticks, ws)))"

text \<open>\<^verbatim>\<open>max(...)\<close> of a column; Python raises ValueError on an empty sequence.\<close>

fun py_max :: "'a::linorder list \<Rightarrow> py_error + 'a" where
  "py_max [] = Inl ValueError"
| "py_max (x # xs) = Inr (fold max xs x)"

text \<open>
  \<^verbatim>\<open>
  max_window = max(bsloc['window'])
  if sum(bsloc['window'] == max_window) < args.regression_window_size / 2:
      bsloc.loc[bsloc['window'] == max_window, 'window'] = max_window-1
  \<close>
\<close>

definition merge_last :: "int \<Rightarrow> int list \<Rightarrow> py_error + int list" where
  "merge_last w ws =
     (case py_max ws of
        Inl e \<Rightarrow> Inl e
      | Inr max_window \<Rightarrow>
          if rat_of_nat (length (filter (\<lambda>x. x = max_window) ws)) < rat_of_int w / 2
          then Inr (map (\<lambda>x. if x = max_window then max_window - 1 else x) ws)
          else Inr ws)"

text \<open>
  Lines 128 to 136 on the table: sort by fitted value, assign the windows by position,
  merge an under-populated last window, and store the column. \<open>sort_key\<close> keeps rows of
  equal fitted value in their order; the quicksort of pandas may order them otherwise.
  Nothing proved below depends on the order of rows of equal key.
\<close>

definition windowing ::
  "int \<Rightarrow> locality_record list \<Rightarrow> py_error + (int \<times> locality_record list)" where
  "windowing w bsloc =
     (let sorted = sort_key fitted bsloc in
      case assign_windows (length sorted) w of
        Inl e \<Rightarrow> Inl e
      | Inr (window_ticks, ws) \<Rightarrow>
          (case merge_last w ws of
             Inl e \<Rightarrow> Inl e
           | Inr ws' \<Rightarrow>
               Inr (window_ticks, map (\<lambda>(r, k). r\<lparr>window := k\<rparr>) (zip sorted ws'))))"

section \<open>Regression of local on global degree (lines 123 to 125, 192 to 194)\<close>

text \<open>
  \<^verbatim>\<open>OLS = sm.OLS(tab['local'], tab['global']).fit()\<close>. The design matrix handed to
  statsmodels is the single column \<open>global\<close>; statsmodels adds no constant column of its
  own and solves the least-squares problem with the pseudo-inverse, so the one parameter
  is \<open>\<Sum>g*l / \<Sum>g*g\<close>, and \<open>0\<close> when every global degree is \<open>0\<close>.
\<close>

definition ols_beta :: "locality_record list \<Rightarrow> rat" where
  "ols_beta tab =
     (let sxx = sum_list (map (\<lambda>r. global_deg r * global_deg r) tab);
          sxy = sum_list (map (\<lambda>r. global_deg r * local_deg r) tab)
      in if sxx = 0 then 0 else sxy / sxx)"

definition ols_fit :: "locality_record list \<Rightarrow> locality_record list" where
  "ols_fit tab =
     (let beta = ols_beta tab
      in map (\<lambda>r. r\<lparr>fitted := beta * global_deg r,
                      resid := local_deg r - beta * global_deg r\<rparr>) tab)"

text \<open>
  The three lines at a call site: on a table without rows \<^verbatim>\<open>sm.OLS\<close> raises ValueError,
  otherwise the columns \<open>fitted\<close> and \<open>resid\<close> are those of the fit.
\<close>

definition sm_ols :: "locality_record list \<Rightarrow> py_error + locality_record list" where
  "sm_ols tab = (if tab = [] then Inl ValueError else Inr (ols_fit tab))"

text \<open>The residual sum of squares of the line through the origin with slope \<open>b\<close>.\<close>

definition rss :: "rat \<Rightarrow> locality_record list \<Rightarrow> rat" where
  "rss b tab = sum_list (map (\<lambda>r. (local_deg r - b * global_deg r)\<^sup>2) tab)"

section \<open>Z-scores (lines 168 to 174, 201 to 202)\<close>

text \<open>
  \<^verbatim>\<open>a/b\<close> on two Python numbers that are exact here (\<^verbatim>\<open>x/window_ticks\<close> at line 198): a
  zero divisor raises.
\<close>

definition py_truediv :: "rat \<Rightarrow> rat \<Rightarrow> py_error + rat" where
  "py_truediv a b = (if b = 0 then Inl ZeroDivisionError else Inr (a / b))"

text \<open>
  \<^verbatim>\<open>x['resid']/x['bs_std']\<close> on a row of \<^verbatim>\<open>iterrows()\<close>. The tables have string columns,
  so a row is an object row that holds Python floats, and the division is Python's: a
  zero divisor raises, whatever the dividend; NaN in either place gives NaN; a number
  over an infinity is \<open>0\<close>; an infinity over an infinity is NaN. There is no other test
  of the divisor or of the quotient in the source.
\<close>

fun float_truediv :: "pyfloat \<Rightarrow> pyfloat \<Rightarrow> py_error + pyfloat" where
  "float_truediv a (Fin y) =
     (if y = 0 then Inl ZeroDivisionError
      else Inr (case a of
                  Fin x \<Rightarrow> Fin (x / y)
                | PInf \<Rightarrow> (if 0 < y then PInf else NInf)
                | NInf \<Rightarrow> (if 0 < y then NInf else PInf)
                | NaN \<Rightarrow> NaN))"
| "float_truediv a NaN = Inr NaN"
| "float_truediv (Fin x) PInf = Inr (Fin 0)"
| "float_truediv (Fin x) NInf = Inr (Fin 0)"
| "float_truediv a PInf = Inr NaN"
| "float_truediv a NInf = Inr NaN"

text \<open>
  \<^verbatim>\<open>z >= t\<close> for a float \<open>z\<close> and an integer threshold \<open>t\<close>: false when \<open>z\<close> is NaN.
\<close>

fun float_ge :: "pyfloat \<Rightarrow> int \<Rightarrow> bool" where
  "float_ge (Fin q) t = (rat_of_int t \<le> q)"
| "float_ge PInf t = True"
| "float_ge NInf t = False"
| "float_ge NaN t = False"

text \<open>
  The key of \<^verbatim>\<open>sort('zscore',ascending=False)\<close>: the largest value first, NaN last.
\<close>

fun desc_rank :: "pyfloat \<Rightarrow> nat \<times> rat" where
  "desc_rank PInf = (0, 0)"
| "desc_rank (Fin q) = (1, - q)"
| "desc_rank NInf = (2, 0)"
| "desc_rank NaN = (3, 0)"

text \<open>
  \<^verbatim>\<open>
  tab['bs_std'] = [fit_std[x] for x in tab['fitted']]
  tab['zscore'] = [x['resid']/x['bs_std'] for i,x in tab.iterrows()]
  \<close>
  \<open>fit_std\<close> is the smoothed lookup built by lines 138 to 164 (NearestDict and lowess,
  neither of them in this file); it is a parameter.
\<close>

definition add_zscores ::
  "(rat \<Rightarrow> pyfloat) \<Rightarrow> locality_record list \<Rightarrow> py_error + locality_record list" where
  "add_zscores fit_std tab =
     map_result
       (\<lambda>r. case float_truediv (Fin (resid r)) (bs_std r) of
              Inl e \<Rightarrow> Inl e
            | Inr z \<Rightarrow> Inr (r\<lparr>zscore := z\<rparr>))
       (map (\<lambda>r. r\<lparr>bs_std := fit_std (fitted r)\<rparr>) tab)"

text \<open>Lines 168 to 170 and 172 to 174: score, then \<^verbatim>\<open>sort('zscore',ascending=False)\<close>.\<close>

definition score_table ::
  "(rat \<Rightarrow> pyfloat) \<Rightarrow> locality_record list \<Rightarrow> py_error + locality_record list" where
  "score_table fit_std tab =
     (case add_zscores fit_std tab of
        Inl e \<Rightarrow> Inl e
      | Inr scored \<Rightarrow> Inr (sort_key (\<lambda>r. desc_rank (zscore r)) scored))"

section \<open>Bootstrap populations (lines 107 to 117, 180 to 190)\<close>

text \<open>
  A row of \<^verbatim>\<open>cob.locality(genes, iter_name=..., include_regression=False)\<close>: the gene and
  its two degrees. The genes come from \<^verbatim>\<open>cob.refgen.bootstrap_candidate_genes\<close>, which is
  random; the table of the iteration \<open>x\<close> is therefore an input, for every \<open>x\<close> in
  \<^verbatim>\<open>range(args.num_bootstraps)\<close>.
\<close>

record degree_row =
  d_gene :: string
  d_local :: rat
  d_global :: rat

definition label_rows :: "iter_label \<Rightarrow> degree_row list \<Rightarrow> locality_record list" where
  "label_rows l tab =
     map (\<lambda>d. \<lparr>gene = d_gene d, iter_name = l, local_deg = d_local d, global_deg = d_global d,
               fitted = 0, resid = 0, window = 0, bs_std = Fin 0, zscore = Fin 0,
               fdr = None\<rparr>) tab"

text \<open>\<^verbatim>\<open>pd.concat([... for x in range(num_bootstraps)])\<close>; no table at all is a ValueError.\<close>

definition bootstrap_population ::
  "(nat \<Rightarrow> iter_label) \<Rightarrow> nat \<Rightarrow> (nat \<Rightarrow> degree_row list)
     \<Rightarrow> py_error + locality_record list" where
  "bootstrap_population label n tab_of =
     (if n = 0 then Inl ValueError
      else Inr (concat (map (\<lambda>x. label_rows (label x) (tab_of x)) [0..<n])))"

section \<open>FDR and p-value (lines 196 to 224)\<close>

text \<open>
  \<^verbatim>\<open>fdr = fdr[fdr['global'] <= max(loc['global'])]\<close>
\<close>

definition restrict_fdr ::
  "locality_record list \<Rightarrow> locality_record list \<Rightarrow> py_error + locality_record list" where
  "restrict_fdr loc fdr_tab =
     (case py_max (map global_deg loc) of
        Inl e \<Rightarrow> Inl e
      | Inr max_global \<Rightarrow> Inr (filter (\<lambda>r. global_deg r \<le> max_global) fdr_tab))"

text \<open>\<^verbatim>\<open>int(q)\<close> of a float: truncation towards zero.\<close>

definition py_int :: "rat \<Rightarrow> int" where
  "py_int q = (if 0 \<le> q then \<lfloor>q\<rfloor> else \<lceil>q\<rceil>)"

text \<open>
  \<^verbatim>\<open>fdr['window'] = [int(x/window_ticks) for x in fdr['global']]\<close>
\<close>

definition fdr_windows ::
  "int \<Rightarrow> locality_record list \<Rightarrow> py_error + locality_record list" where
  "fdr_windows window_ticks fdr_tab =
     map_result
       (\<lambda>r. case py_truediv (global_deg r) (rat_of_int window_ticks) of
              Inl e \<Rightarrow> Inl e
            | Inr q \<Rightarrow> Inr (r\<lparr>window := py_int q\<rparr>))
       fdr_tab"

text \<open>
  \<^verbatim>\<open>df.groupby('iter_name').apply(len)\<close>: one entry per label that occurs in \<open>df\<close>, the
  number of its rows.
\<close>

definition group_sizes :: "locality_record list \<Rightarrow> nat list" where
  "group_sizes df =
     map (\<lambda>g. length (filter (\<lambda>r. iter_name r = g) df)) (remdups (map iter_name df))"

definition mean :: "rat list \<Rightarrow> rat" where
  "mean xs = sum_list xs / rat_of_nat (length xs)"

text \<open>
  \<^verbatim>\<open>
  fdr_indices = fdr[fdr.zscore >= zscore]
  if len(fdr_indices) > 0:
      num_random = fdr_indices.groupby('iter_name').apply(len).mean()
  else:
      num_random = 0
  \<close>
\<close>

definition num_random :: "locality_record list \<Rightarrow> int \<Rightarrow> rat" where
  "num_random fdr_tab t =
     (let fdr_indices = filter (\<lambda>r. float_ge (zscore r) t) fdr_tab
      in if length fdr_indices > 0
         then mean (map rat_of_nat (group_sizes fdr_indices))
         else 0)"

text \<open>\<^verbatim>\<open>num_real = sum(loc.zscore >= zscore)\<close>\<close>

definition num_real :: "locality_record list \<Rightarrow> int \<Rightarrow> nat" where
  "num_real loc t = length (filter (\<lambda>r. float_ge (zscore r) t) loc)"

text \<open>
  \<^verbatim>\<open>
  if num_real != 0 and num_random != 0:
      zfdr = num_random/num_real
  else:
      zfdr = 1
  \<close>
\<close>

definition zfdr :: "locality_record list \<Rightarrow> locality_record list \<Rightarrow> int \<Rightarrow> rat" where
  "zfdr fdr_tab loc t =
     (if num_real loc t \<noteq> 0 \<and> num_random fdr_tab t \<noteq> 0
      then num_random fdr_tab t / rat_of_nat (num_real loc t)
      else 1)"

text \<open>
  One pass of the loop body, ending in \<^verbatim>\<open>loc.loc[loc.zscore>=zscore,'fdr'] = zfdr\<close>. The
  table \<open>loc\<close> is the loop's state.
\<close>

definition fdr_pass ::
  "locality_record list \<Rightarrow> int \<Rightarrow> locality_record list \<Rightarrow> locality_record list" where
  "fdr_pass fdr_tab t loc =
     (let v = zfdr fdr_tab loc t
      in map (\<lambda>r. if float_ge (zscore r) t then r\<lparr>fdr := Some v\<rparr> else r) loc)"

text \<open>\<^verbatim>\<open>for zscore in range(0,8): ...\<close>\<close>

definition gene_specific_fdr ::
  "locality_record list \<Rightarrow> locality_record list \<Rightarrow> locality_record list" where
  "gene_specific_fdr fdr_tab loc = fold (fdr_pass fdr_tab) [0..7] loc"

text \<open>
  \<^verbatim>\<open>fdr.groupby('iter_name').apply(np.mean)\<close>: one row per label that occurs in the
  table, with the mean of each column. Of the columns only \<open>resid\<close> is kept here. pandas
  orders the rows by label; nothing below depends on the order.
\<close>

definition grouped_resid :: "locality_record list \<Rightarrow> (iter_label \<times> rat) list" where
  "grouped_resid df =
     map (\<lambda>g. (g, mean (map resid (filter (\<lambda>r. iter_name r = g) df))))
       (remdups (map iter_name df))"

text \<open>
  \<^verbatim>\<open>
  loc = loc.groupby('Term').apply(np.mean)
  fdr = fdr.groupby('iter_name').apply(np.mean)
  average_resid = loc.ix[term.id].resid
  loc['pval'] = sum([x >= average_resid for x in fdr.resid.values])/len(fdr)
  \<close>
  \<open>fdr_means\<close> is the grouped \<open>fdr\<close>. An empty \<open>loc\<close> has no row for the term; an empty
  \<open>fdr\<close> gives \<open>0/0\<close>.
\<close>

definition aggregate_pval ::
  "locality_record list \<Rightarrow> (iter_label \<times> rat) list \<Rightarrow> py_error + rat" where
  "aggregate_pval loc fdr_means =
     (if loc = [] then Inl KeyError
      else let average_resid = mean (map resid loc)
        in if length fdr_means = 0 then Inl ZeroDivisionError
           else Inr (rat_of_nat (length (filter (\<lambda>x. average_resid \<le> x) (map snd fdr_means)))
                     / rat_of_nat (length fdr_means)))"

text \<open>
  What \<open>generate_data\<close> returns as \<open>loc\<close> and \<open>fdr\<close>: in gene-specific mode the empirical
  table with its \<open>fdr\<close> column and the scored FDR rows, in aggregate mode the p-value of
  the one-row \<open>loc\<close> and the grouped \<open>fdr\<close>.
\<close>

datatype fdr_output =
  PerGene "locality_record list" "locality_record list"
| Aggregate rat "(iter_label \<times> rat) list"

text \<open>Lines 196 to 224.\<close>

definition fdr_stage ::
  "bool \<Rightarrow> (rat \<Rightarrow> pyfloat) \<Rightarrow> int \<Rightarrow> locality_record list \<Rightarrow> locality_record list
     \<Rightarrow> py_error + fdr_output" where
  "fdr_stage gene_specific fit_std window_ticks loc fdr_tab =
     (case restrict_fdr loc fdr_tab of
        Inl e \<Rightarrow> Inl e
      | Inr fdr1 \<Rightarrow>
     (case fdr_windows window_ticks fdr1 of
        Inl e \<Rightarrow> Inl e
      | Inr fdr2 \<Rightarrow>
     (case add_zscores fit_std fdr2 of
        Inl e \<Rightarrow> Inl e
      | Inr fdr3 \<Rightarrow>
          if gene_specific then Inr (PerGene (gene_specific_fdr fdr3 loc) fdr3)
          else (let fdr_means = grouped_resid fdr3 in
                case aggregate_pval loc fdr_means of
                  Inl e \<Rightarrow> Inl e
                | Inr p \<Rightarrow> Inr (Aggregate p fdr_means)))))"

section \<open>\<open>generate_data\<close> (lines 76 to 227)\<close>

record args =
  snp2gene :: string
  num_bootstraps :: nat
  regression_window_size :: int
  gene_specific :: bool

text \<open>
  The collaborators that are not in this file are inputs: \<open>loc_emp\<close> is the empirical
  table of \<^verbatim>\<open>cob.locality(candidate_genes, include_regression=True)\<close>, with its fitted
  values and residuals; \<open>bs_tab x\<close> and \<open>fdr_tab x\<close> are the degree tables of the
  iteration \<open>x\<close> of the two series of bootstraps; \<open>standardizer\<close> is lines 138 to 164,
  from the windowed bootstrap table to the lookup of the smoothed deviation. The
  result is \<open>loc\<close> and \<open>fdr\<close> as above, and \<open>bsloc\<close>.
\<close>

definition generate_data ::
  "args \<Rightarrow> (locality_record list \<Rightarrow> rat \<Rightarrow> pyfloat) \<Rightarrow> locality_record list
     \<Rightarrow> (nat \<Rightarrow> degree_row list) \<Rightarrow> (nat \<Rightarrow> degree_row list)
     \<Rightarrow> py_error + (fdr_output \<times> locality_record list)" where
  "generate_data a standardizer loc_emp bs_tab fdr_tab =
     (if snp2gene a \<noteq> ''effective'' \<and> snp2gene a \<noteq> ''strongest'' then Inl ValueError
      else
     (case bootstrap_population Bs (num_bootstraps a) bs_tab of
        Inl e \<Rightarrow> Inl e
      | Inr bs0 \<Rightarrow>
     (case sm_ols bs0 of
        Inl e \<Rightarrow> Inl e
      | Inr bs_fit \<Rightarrow>
     (case windowing (regression_window_size a) bs_fit of
        Inl e \<Rightarrow> Inl e
      | Inr (window_ticks, bs1) \<Rightarrow>
     (let fit_std = standardizer bs1 in
      case score_table fit_std (map (\<lambda>r. r\<lparr>iter_name := Emp\<rparr>) loc_emp) of
        Inl e \<Rightarrow> Inl e
      | Inr loc \<Rightarrow>
     (case score_table fit_std bs1 of
        Inl e \<Rightarrow> Inl e
      | Inr bsloc \<Rightarrow>
     (case bootstrap_population Fdr (num_bootstraps a) fdr_tab of
        Inl e \<Rightarrow> Inl e
      | Inr fdr0 \<Rightarrow>
     (case sm_ols (sort_key global_deg fdr0) of
        Inl e \<Rightarrow> Inl e
      | Inr fdr_fit \<Rightarrow>
     (case fdr_stage (gene_specific a) fit_std window_ticks loc fdr_fit of
        Inl e \<Rightarrow> Inl e
      | Inr out \<Rightarrow> Inr (out, bsloc))))))))))"

section \<open>The command \<open>locality\<close> (lines 22 to 74)\<close>

text \<open>
  \<^verbatim>\<open>s.replace(old, '')\<close> for a non-empty \<open>old\<close>: every occurrence goes, scanning from the
  left without overlap.
\<close>

fun remove_all :: "string \<Rightarrow> string \<Rightarrow> string" where
  "remove_all old [] = []"
| "remove_all old (c # cs) =
     (if old \<noteq> [] \<and> take (length old) (c # cs) = old
      then remove_all old (drop (length old - 1) cs)
      else c # remove_all old cs)"

text \<open>\<^verbatim>\<open>"{}_Locality.csv".format(out.replace('.csv',''))\<close>\<close>

definition locality_name :: "string \<Rightarrow> string" where
  "locality_name out = remove_all ''.csv'' out @ ''_Locality.csv''"

text \<open>
  \<^verbatim>\<open>os.path.dirname\<close> of posixpath: the part up to the last slash, without its trailing
  slashes unless it consists of slashes only.
\<close>

definition dirname :: "string \<Rightarrow> string" where
  "dirname p =
     (let head = rev (dropWhile (\<lambda>c. c \<noteq> CHR ''/'') (rev p))
      in if head \<noteq> [] \<and> head \<noteq> replicate (length head) CHR ''/''
         then rev (dropWhile (\<lambda>c. c = CHR ''/'') (rev head))
         else head)"

text \<open>
  The file system, as far as the command touches it: what exists at a path. The
  directories above the one that \<^verbatim>\<open>os.makedirs\<close> is asked for are not tracked; the command
  neither tests nor writes them.
\<close>

datatype entry = File string | Dir

type_synonym filesystem = "string \<rightharpoonup> entry"

text \<open>\<^verbatim>\<open>os.makedirs(d, exist_ok=True)\<close>\<close>

definition makedirs :: "string \<Rightarrow> filesystem \<Rightarrow> py_error + filesystem" where
  "makedirs d fs =
     (case fs d of
        Some (File c) \<Rightarrow> Inl FileExistsError
      | Some Dir \<Rightarrow> Inr fs
      | None \<Rightarrow> Inr (fs(d \<mapsto> Dir)))"

text \<open>Writing a file (\<^verbatim>\<open>to_csv\<close>, \<^verbatim>\<open>savefig\<close>): a directory at the path is an error.\<close>

definition write_file :: "string \<Rightarrow> string \<Rightarrow> filesystem \<Rightarrow> py_error + filesystem" where
  "write_file p c fs =
     (case fs p of
        Some Dir \<Rightarrow> Inl IsADirectoryError
      | _ \<Rightarrow> Inr (fs(p \<mapsto> File c)))"

text \<open>\<^verbatim>\<open>args.out\<close> is \<^verbatim>\<open>sys.stdout\<close> or a path.\<close>

datatype out_arg = Stdout | OutPath string

text \<open>
  The loop over the terms. \<open>gen t\<close> is what \<^verbatim>\<open>generate_data(cob,gwas,term,args)\<close> returns
  as \<open>loc\<close> for the term with id \<open>t\<close>, or the error it raises; \<open>png t loc\<close> is the picture
  that \<^verbatim>\<open>plt.savefig("{}_{}.png".format(args.out, term.id))\<close> stores when plots are asked
  for. The result is the file system and either the error or \<open>all_results\<close>.
\<close>

fun analyse_terms ::
  "(string \<Rightarrow> py_error + 'r) \<Rightarrow> (string \<Rightarrow> 'r \<Rightarrow> string) \<Rightarrow> string \<Rightarrow> bool
     \<Rightarrow> filesystem \<Rightarrow> string list \<Rightarrow> filesystem \<times> (py_error + 'r list)" where
  "analyse_terms gen png out plot fs [] = (fs, Inr [])"
| "analyse_terms gen png out plot fs (t # ts) =
     (case gen t of
        Inl e \<Rightarrow> (fs, Inl e)
      | Inr loc \<Rightarrow>
          (case (if plot then write_file (out @ ''_'' @ t @ ''.png'') (png t loc) fs
                 else Inr fs) of
             Inl e \<Rightarrow> (fs, Inl e)
           | Inr fs1 \<Rightarrow>
               (case analyse_terms gen png out plot fs1 ts of
                  (fs2, Inl e) \<Rightarrow> (fs2, Inl e)
                | (fs2, Inr rs) \<Rightarrow> (fs2, Inr (loc # rs)))))"

datatype 'r run_outcome = Skipped string | Completed "string list" "'r list"

text \<open>
  \<^verbatim>\<open>
  if args.out != sys.stdout:
      args.out = "{}_Locality.csv".format(args.out.replace('.csv',''))
  if os.path.dirname(args.out) != '':
      os.makedirs(os.path.dirname(args.out),exist_ok=True)
  if os.path.exists("{}_Locality.csv".format(args.out.replace('.csv',''))):
      print("{}_Locality.csv exists! Skipping!".format(args.out.replace('.csv','')))
      return None
  ...
  all_results = pd.concat(all_results)
  ...
  all_results.to_csv(args.out)
  \<close>
  \<open>terms\<close> are the ids of the terms that were asked for, \<open>csv\<close> renders the result table
  with its provenance columns. The outcome is \<open>Skipped\<close> with the printed line, or
  \<open>Completed\<close> with the terms analysed and their tables. With \<^verbatim>\<open>sys.stdout\<close> the call of
  \<^verbatim>\<open>os.path.dirname\<close> raises.
\<close>

definition locality ::
  "(string \<Rightarrow> py_error + 'r) \<Rightarrow> (string \<Rightarrow> 'r \<Rightarrow> string) \<Rightarrow> ('r list \<Rightarrow> string)
     \<Rightarrow> out_arg \<Rightarrow> bool \<Rightarrow> string list \<Rightarrow> filesystem
     \<Rightarrow> filesystem \<times> (py_error + 'r run_outcome)" where
  "locality gen png csv out_arg plot terms fs =
     (case out_arg of
        Stdout \<Rightarrow> (fs, Inl TypeError)
      | OutPath given \<Rightarrow>
          (let out = locality_name given in
           case (if dirname out \<noteq> [] then makedirs (dirname out) fs else Inr fs) of
             Inl e \<Rightarrow> (fs, Inl e)
           | Inr fs1 \<Rightarrow>
               if fs1 (locality_name out) \<noteq> None
               then (fs1, Inr (Skipped (locality_name out @ '' exists! Skipping!'')))
               else
                 (case analyse_terms gen png out plot fs1 terms of
                    (fs2, Inl e) \<Rightarrow> (fs2, Inl e)
                  | (fs2, Inr all_results) \<Rightarrow>
                      if all_results = [] then (fs2, Inl ValueError)
                      else (case write_file out (csv all_results) fs2 of
                              Inl e \<Rightarrow> (fs2, Inl e)
                            | Inr fs3 \<Rightarrow> (fs3, Inr (Completed terms all_results))))))"

section \<open>Auxiliary definitions for the proofs and the examples\<close>

text \<open>What one pass of the loop does to one row, for a given value \<open>v t\<close> of \<open>zfdr\<close>.\<close>

definition pass1 :: "(int \<Rightarrow> rat) \<Rightarrow> int \<Rightarrow> locality_record \<Rightarrow> locality_record" where
  "pass1 v t r = (if float_ge (zscore r) t then r\<lparr>fdr := Some (v t)\<rparr> else r)"

text \<open>A scored row for the examples: gene, label and z-score, no \<open>fdr\<close> yet.\<close>

definition scored_row :: "string \<Rightarrow> iter_label \<Rightarrow> pyfloat \<Rightarrow> locality_record" where
  "scored_row g l z =
     \<lparr>gene = g, iter_name = l, local_deg = 0, global_deg = 0, fitted = 0, resid = 0,
      window = 0, bs_std = Fin 1, zscore = z, fdr = None\<rparr>"

definition example_loc :: "locality_record list" where
  "example_loc =
     [scored_row ''d'' Emp (Fin (15 / 2)), scored_row ''a'' Emp (Fin (5 / 2)),
      scored_row ''b'' Emp (Fin (3 / 2)), scored_row ''c'' Emp (Fin (1 / 2)),
      scored_row ''e'' Emp (Fin (- 1))]"

text \<open>Two FDR iterations: \<open>fdr0\<close> with two genes, \<open>fdr1\<close> with one gene below every threshold.\<close>

definition example_fdr :: "locality_record list" where
  "example_fdr =
     [scored_row ''x'' (Fdr 0) (Fin (1 / 2)), scored_row ''y'' (Fdr 0) (Fin 3),
      scored_row ''z'' (Fdr 1) (Fin (- 1))]"

text \<open>
  The mean as the specification words it: over all \<open>n\<close> FDR iterations, the number of
  rows of the iteration with a z-score of at least \<open>t\<close>; an iteration without such a row
  counts \<open>0\<close>.
\<close>

definition num_random_claimed :: "nat \<Rightarrow> locality_record list \<Rightarrow> int \<Rightarrow> rat" where
  "num_random_claimed n fdr_tab t =
     mean (map (\<lambda>x. rat_of_nat (length (filter (\<lambda>r. iter_name r = Fdr x \<and> float_ge (zscore r) t)
                   fdr_tab))) [0..<n])"

text \<open>
  Two empirical rows before scoring, and two lookups of the smoothed deviation: one is
  \<open>0\<close> at the fitted value \<open>2\<close>, the other is NaN there. Both are \<open>1\<close> elsewhere.
\<close>

definition unscored_row :: "string \<Rightarrow> rat \<Rightarrow> rat \<Rightarrow> locality_record" where
  "unscored_row g f e =
     \<lparr>gene = g, iter_name = Emp, local_deg = f + e, global_deg = 10, fitted = f, resid = e,
      window = 0, bs_std = Fin 0, zscore = Fin 0, fdr = None\<rparr>"

definition example_unscored :: "locality_record list" where
  "example_unscored = [unscored_row ''a'' 1 3, unscored_row ''b'' 2 5]"

definition zero_at_two :: "rat \<Rightarrow> pyfloat" where
  "zero_at_two x = (if x = 2 then Fin 0 else Fin 1)"

definition nan_at_two :: "rat \<Rightarrow> pyfloat" where
  "nan_at_two x = (if x = 2 then NaN else Fin 1)"

text \<open>The second table as the scoring with \<open>nan_at_two\<close> leaves it.\<close>

definition example_nan_scored :: "locality_record list" where
  "example_nan_scored =
     [(unscored_row ''a'' 1 3)\<lparr>bs_std := Fin 1, zscore := Fin 3\<rparr>,
      (unscored_row ''b'' 2 5)\<lparr>bs_std := NaN, zscore := NaN\<rparr>]"

text \<open>
  An aggregate run with three bootstraps of five genes each and windows of three rows.
  In the enrichment bootstraps the local degree is half the global degree, minus one in
  the first, as it is in the second, plus one in the third: the slope of the fit is
  \<open>1/2\<close>, each window holds the three rows of one global degree, and their residuals
  are \<open>-1\<close>, \<open>0\<close> and \<open>1\<close>, of sample deviation \<open>1\<close>. The smoothed deviation is therefore
  \<open>1\<close> at every fitted value.
\<close>

definition deg :: "string \<Rightarrow> rat \<Rightarrow> rat \<Rightarrow> degree_row" where
  "deg g l gl = \<lparr>d_gene = g, d_local = l, d_global = gl\<rparr>"

definition example_args :: args where
  "example_args = \<lparr>snp2gene = ''effective'', num_bootstraps = 3, regression_window_size = 3,
                    gene_specific = False\<rparr>"

definition example_bs_tab :: "nat \<Rightarrow> degree_row list" where
  "example_bs_tab x =
     [[deg ''a'' 4 10, deg ''b'' 5 12, deg ''c'' 6 14, deg ''d'' 7 16, deg ''e'' 8 18],
      [deg ''a'' 5 10, deg ''b'' 6 12, deg ''c'' 7 14, deg ''d'' 8 16, deg ''e'' 9 18],
      [deg ''a'' 6 10, deg ''b'' 7 12, deg ''c'' 8 14, deg ''d'' 9 16, deg ''e'' 10 18]] ! x"

definition unit_std :: "locality_record list \<Rightarrow> rat \<Rightarrow> pyfloat" where
  "unit_std bsloc x = Fin 1"

text \<open>
  The empirical genes have the global degrees \<open>10\<close> to \<open>18\<close> and the residual \<open>3/2\<close>. The
  first two FDR iterations have the same global degrees and the residuals \<open>2\<close> and \<open>1\<close>;
  every gene of the third has a global degree above \<open>18\<close>.
\<close>

definition emp_row :: "string \<Rightarrow> rat \<Rightarrow> rat \<Rightarrow> locality_record" where
  "emp_row g l gl =
     \<lparr>gene = g, iter_name = Emp, local_deg = l, global_deg = gl, fitted = l - 3 / 2,
      resid = 3 / 2, window = 0, bs_std = Fin 0, zscore = Fin 0, fdr = None\<rparr>"

definition example_emp :: "locality_record list" where
  "example_emp = [emp_row ''a'' 6 10, emp_row ''b'' 7 12, emp_row ''c'' 8 14,
                  emp_row ''d'' 9 16, emp_row ''e'' 10 18]"

definition example_fdr_tab :: "nat \<Rightarrow> degree_row list" where
  "example_fdr_tab x =
     [[deg ''a'' 7 10, deg ''b'' 8 12, deg ''c'' 9 14, deg ''d'' 10 16, deg ''e'' 11 18],
      [deg ''a'' 6 10, deg ''b'' 7 12, deg ''c'' 8 14, deg ''d'' 9 16, deg ''e'' 10 18],
      [deg ''p'' 18 38, deg ''q'' 19 40, deg ''r'' 20 42, deg ''s'' 21 44, deg ''t'' 22 46]] ! x"

text \<open>The three columns that the windows and the z-scores leave as they are.\<close>

definition kept_cols :: "locality_record \<Rightarrow> iter_label \<times> rat \<times> rat" where
  "kept_cols r = (iter_name r, global_deg r, resid r)"

text \<open>
  The aggregate p-value from the inputs. The rows of an FDR iteration that the filter of
  line 197 keeps; the slope of the fit over the rows of all FDR iterations; the mean
  residual of the kept rows of an iteration; the iterations that keep a row.
\<close>

definition kept_rows :: "locality_record list \<Rightarrow> degree_row list \<Rightarrow> degree_row list" where
  "kept_rows loc_emp tab = filter (\<lambda>d. d_global d \<le> Max (global_deg ` set loc_emp)) tab"

definition fdr_slope :: "nat \<Rightarrow> (nat \<Rightarrow> degree_row list) \<Rightarrow> rat" where
  "fdr_slope n fdr_tab = ols_beta (concat (map (\<lambda>x. label_rows (Fdr x) (fdr_tab x)) [0..<n]))"

definition iteration_resid ::
  "nat \<Rightarrow> (nat \<Rightarrow> degree_row list) \<Rightarrow> locality_record list \<Rightarrow> nat \<Rightarrow> rat" where
  "iteration_resid n fdr_tab loc_emp x =
     mean (map (\<lambda>d. d_local d - fdr_slope n fdr_tab * d_global d)
             (kept_rows loc_emp (fdr_tab x)))"

definition kept_iterations ::
  "nat \<Rightarrow> (nat \<Rightarrow> degree_row list) \<Rightarrow> locality_record list \<Rightarrow> nat set" where
  "kept_iterations n fdr_tab loc_emp = {x. x < n \<and> kept_rows loc_emp (fdr_tab x) \<noteq> []}"

text \<open>
  Two file systems for the command: one holds the result table of an earlier run with
  the output \<open>foo\<close>, the other a file of the doubled name only.
\<close>

definition old_fs :: filesystem where
  "old_fs = [''foo_Locality.csv'' \<mapsto> File ''old table'']"

definition other_fs :: filesystem where
  "other_fs = [''foo_Locality_Locality.csv'' \<mapsto> File ''other'']"

section \<open>Windowing: results\<close>

lemma map_result_total: "map_result (\<lambda>x. Inr (g x)) xs = Inr (map g xs)"
  by (induction xs) simp_all

lemma int_truediv_pos: "0 < t \<Longrightarrow> int_truediv (int i) t = Inr (int i div t)"
  by (cases "i = 0") (simp_all add: int_truediv_def)

lemma nw_pos:
  assumes "0 < w" "w \<le> int n"
  shows "1 \<le> int n div w"
  using assms pos_imp_zdiv_pos_iff[of w "int n"] by linarith

lemma le_div_int: "0 < (b::int) \<Longrightarrow> a * b \<le> n \<Longrightarrow> a \<le> n div b"
  using zdiv_mono1 by fastforce

lemma div_mult_le_int:
  assumes "0 < (b::int)" shows "n div b * b \<le> n"
proof -
  have "n div b * b + n mod b = n" by (rule div_mult_mod_eq)
  moreover have "0 \<le> n mod b" using assms by simp
  ultimately show ?thesis by linarith
qed

lemma div_lt_int: 
  assumes "0 < (b::int)" "n < a * b" shows "n div b < a"
proof -
  have "n div b * b \<le> n" by (rule div_mult_le_int[OF assms(1)])
  hence "n div b * b < a * b" using assms by linarith
  thus ?thesis using assms by (simp add: mult_less_cancel_right)
qed

lemma ticks_ge:
  assumes "0 < w" "w \<le> int n"
  shows "w \<le> int n div (int n div w)"
proof -
  have "int n div w * w \<le> int n" using assms by (simp add: div_mult_le_int)
  hence "w * (int n div w) \<le> int n" by (simp add: mult.commute)
  thus ?thesis using nw_pos[OF assms] le_div_int[of "int n div w" w "int n"] by simp
qed

lemma div_ticks:
  assumes "0 < w" "w \<le> int n"
  shows "int n div (int n div (int n div w)) = int n div w"
proof -
  let ?nw = "int n div w" let ?t = "int n div ?nw"
  have nw: "1 \<le> ?nw" by (rule nw_pos[OF assms])
  have t: "w \<le> ?t" by (rule ticks_ge[OF assms])
  have tpos: "0 < ?t" using t assms by linarith
  have "?t * ?nw \<le> int n" using nw by (simp add: div_mult_le_int)
  hence "?nw * ?t \<le> int n" by (simp add: mult.commute)
  hence ge: "?nw \<le> int n div ?t" using tpos le_div_int by simp
  have "int n mod w < w" using assms by simp
  moreover have "?nw * w + int n mod w = int n" by (rule div_mult_mod_eq)
  moreover have "(?nw + 1) * w = ?nw * w + w" by (simp add: algebra_simps)
  ultimately have "int n < (?nw + 1) * w" by linarith
  also have "\<dots> \<le> (?nw + 1) * ?t" using t nw by (simp add: mult_left_mono)
  finally have "int n < (?nw + 1) * ?t" .
  hence "int n div ?t < ?nw + 1" by (rule div_lt_int[OF tpos])
  thus ?thesis using ge by linarith
qed

lemma assign_windows_pos:
  assumes "0 < w" "w \<le> int n"
  shows "assign_windows n w =
     Inr (int n div (int n div w), map (\<lambda>i. int i div (int n div (int n div w))) [0..<n])"
proof -
  have nw: "1 \<le> int n div w" by (rule nw_pos[OF assms])
  have t: "0 < int n div (int n div w)" using ticks_ge[OF assms] assms by linarith
  show ?thesis using assms nw t
    by (simp add: assign_windows_def Let_def int_truediv_pos map_result_total)
qed

lemma window_set:
  assumes "0 < t" "0 < n"
  shows "set (map (\<lambda>i. int i div t) [0..<n]) = {0 .. (int n - 1) div t}"
proof (intro equalityI subsetI)
  fix x assume "x \<in> set (map (\<lambda>i. int i div t) [0..<n])"
  then obtain i where i: "i < n" "x = int i div t" by auto
  have "0 \<le> x" using i assms by (simp add: pos_imp_zdiv_nonneg_iff)
  moreover have "x \<le> (int n - 1) div t" using i assms by (simp add: zdiv_mono1)
  ultimately show "x \<in> {0 .. (int n - 1) div t}" by simp
next
  fix x assume x: "x \<in> {0 .. (int n - 1) div t}"
  hence "x * t \<le> (int n - 1) div t * t" using assms by (simp add: mult_right_mono)
  also have "\<dots> \<le> int n - 1" by (rule div_mult_le_int[OF assms(1)])
  finally have lt: "x * t < int n" by simp
  have nn: "0 \<le> x * t" using x assms by simp
  have "int (nat (x * t)) div t = x" using nn assms by simp
  moreover have "nat (x * t) < n" using lt nn by linarith
  ultimately show "x \<in> set (map (\<lambda>i. int i div t) [0..<n])" by force
qed

lemma div_add_small:
  assumes "0 < (t::int)" "0 \<le> r" "r < t"
  shows "(q * t + r) div t = q"
proof -
  have "(r + q * t) div t = q + r div t" using assms by simp
  moreover have "r div t = 0" using assms by (simp add: div_pos_pos_trivial)
  ultimately show ?thesis by (simp add: add.commute)
qed

lemma last_index:
  assumes "0 < t" "0 < n"
  shows "(int n - 1) div t = int n div t - (if int n mod t = 0 then 1 else 0)"
proof (cases "int n mod t = 0")
  case True
  have eq: "int n div t * t = int n" using True div_mult_mod_eq[of "int n" t] by linarith
  have "int n - 1 = (int n div t - 1) * t + (t - 1)"
    using eq by (simp add: algebra_simps)
  moreover have "((int n div t - 1) * t + (t - 1)) div t = int n div t - 1"
    using assms by (intro div_add_small) simp_all
  ultimately have "(int n - 1) div t = int n div t - 1" by (simp only:)
  thus ?thesis using True by simp
next
  case False
  let ?q = "int n div t" let ?r = "int n mod t"
  have "0 \<le> ?r" "?r < t" using assms by simp_all
  hence r: "0 \<le> ?r - 1" "?r - 1 < t" using False by linarith+
  have "int n - 1 = ?q * t + (?r - 1)" using div_mult_mod_eq[of "int n" t] by linarith
  moreover have "(?q * t + (?r - 1)) div t = ?q" using assms(1) r by (rule div_add_small)
  ultimately have "(int n - 1) div t = ?q" by (simp only:)
  thus ?thesis using False by simp
qed

lemma card_window_set:
  assumes "0 < w" "w \<le> int n"
  shows "int (card {0 .. (int n - 1) div (int n div (int n div w))}) =
         int n div w + (if int n mod (int n div (int n div w)) = 0 then 0 else 1)"
proof -
  let ?t = "int n div (int n div w)"
  have t: "0 < ?t" using ticks_ge[OF assms] assms by linarith
  have n: "0 < n" using assms by linarith
  have "(int n - 1) div ?t = int n div w - (if int n mod ?t = 0 then 1 else 0)"
    using last_index[OF t n] div_ticks[OF assms] by simp
  moreover have "1 \<le> int n div w" by (rule nw_pos[OF assms])
  ultimately show ?thesis by simp
qed

lemma assign_windows_small:
  assumes "int n < w"
  shows "assign_windows n w = Inl ZeroDivisionError"
  using assms by (simp add: assign_windows_def div_pos_pos_trivial)

lemma windowing_small:
  assumes "int (length bsloc) < w"
  shows "windowing w bsloc = Inl ZeroDivisionError"
  using assms by (simp add: windowing_def assign_windows_small)



text \<open>
  C1. The claim: a bootstrap population with fewer rows than one regression window, the
  empty one included, does not crash the windowing step and collapses to a single
  window. The code: \<open>num_windows\<close> is \<open>0\<close> and \<open>len(bsloc) // num_windows\<close> raises
  ZeroDivisionError, here for three rows and for no row with a window of fifty.
\<close>

theorem small_population_raises:
  "assign_windows 3 50 = Inl ZeroDivisionError \<and> assign_windows 0 50 = Inl ZeroDivisionError \<and>
   windowing 50 [] = Inl ZeroDivisionError"
  by (simp add: assign_windows_def windowing_def)

text \<open>
  C2, as the claim states it, fails: seven rows with a window of two give
  \<open>num_windows = 3\<close> and \<open>window_ticks = 2\<close>, and the last row gets the index \<open>3\<close>, which is
  not below \<open>num_windows\<close>; there are four distinct windows.
\<close>

theorem assign_windows_extra_window:
  "assign_windows 7 2 = Inr (2, [0, 0, 1, 1, 2, 2, 3]) \<and> (7::int) div 2 = 3 \<and>
   \<not> last [0, 0, 1, 1, 2, 2, 3] \<le> (7::int) div 2 - 1 \<and>
   card (set [0, 0, 1, 1, 2, 2, 3::int]) = 4"
proof -
  have "assign_windows 7 2 = Inr (2, [0, 0, 1, 1, 2, 2, 3])" by code_simp
  thus ?thesis by simp
qed

text \<open>
  C2, amended. For a population of \<open>n \<ge> w > 0\<close> rows, with
  \<open>num_windows = n div w\<close> and \<open>window_ticks = n div num_windows\<close>, the windowing succeeds,
  the row at position \<open>i\<close> gets the one index \<open>i div window_ticks\<close>, every index lies in
  \<open>[0, num_windows]\<close>, the indices used are exactly \<open>0 .. (n - 1) div window_ticks\<close>, and
  the number of distinct windows before merging is \<open>num_windows\<close> when \<open>window_ticks\<close>
  divides \<open>n\<close> and \<open>num_windows + 1\<close> otherwise.
\<close>

theorem assign_windows_range:
  assumes "0 < w" and "w \<le> int n"
  shows "\<exists>t ws. assign_windows n w = Inr (t, ws) \<and> t = int n div (int n div w) \<and>
           length ws = n \<and> (\<forall>i<n. ws ! i = int i div t) \<and>
           (\<forall>x\<in>set ws. 0 \<le> x \<and> x \<le> int n div w) \<and>
           set ws = {0 .. (int n - 1) div t} \<and>
           int (card (set ws)) = int n div w + (if int n mod t = 0 then 0 else 1)"
proof -
  let ?t = "int n div (int n div w)"
  let ?ws = "map (\<lambda>i. int i div ?t) [0..<n]"
  have t: "0 < ?t" using ticks_ge[OF assms] assms by linarith
  have n: "0 < n" using assms by linarith
  have run: "assign_windows n w = Inr (?t, ?ws)" by (rule assign_windows_pos[OF assms])
  have st: "set ?ws = {0 .. (int n - 1) div ?t}" by (rule window_set[OF t n])
  have last: "(int n - 1) div ?t \<le> int n div w"
    using last_index[OF t n] div_ticks[OF assms] by simp
  have rng: "\<forall>x\<in>set ?ws. 0 \<le> x \<and> x \<le> int n div w"
    unfolding st using last by auto
  have crd: "int (card (set ?ws)) = int n div w + (if int n mod ?t = 0 then 0 else 1)"
    unfolding st by (rule card_window_set[OF assms])
  have idx: "\<forall>i<n. ?ws ! i = int i div ?t" by simp
  show ?thesis using run st rng crd idx by (intro exI[of _ ?t] exI[of _ ?ws]) simp
qed

theorem assign_windows_range_witness:
  "(0::int) < 3 \<and> 3 \<le> int 7 \<and> assign_windows 7 3 = Inr (3, [0, 0, 0, 1, 1, 1, 2])"
proof -
  have e: "assign_windows 7 3 = Inr (3, [0, 0, 0, 1, 1, 1, 2])" by code_simp
  show ?thesis using assign_windows_range[of 3 7] e by simp
qed

lemma py_max_Max:
  assumes "ws \<noteq> []"
  shows "py_max ws = Inr (Max (set ws))"
proof (cases ws)
  case Nil
  with assms show ?thesis by simp
next
  case (Cons a list)
  show ?thesis unfolding Cons using Max.set_eq_fold[of a list] by simp
qed

text \<open>
  C3. For a non-empty window column with maximum index \<open>m\<close>: if fewer than \<open>w/2\<close> rows
  carry \<open>m\<close>, each of them gets \<open>m - 1\<close>, every other row keeps its index and no row with
  index \<open>m\<close> remains; otherwise the column is unchanged.
\<close>

theorem merge_last_spec:
  assumes "ws \<noteq> []"
  shows "\<exists>m ws'. py_max ws = Inr m \<and> m \<in> set ws \<and> (\<forall>x\<in>set ws. x \<le> m) \<and>
           merge_last w ws = Inr ws' \<and> length ws' = length ws \<and>
           (rat_of_nat (length (filter (\<lambda>x. x = m) ws)) < rat_of_int w / 2 \<longrightarrow>
              (\<forall>i<length ws. ws' ! i = (if ws ! i = m then m - 1 else ws ! i)) \<and> m \<notin> set ws') \<and>
           (\<not> rat_of_nat (length (filter (\<lambda>x. x = m) ws)) < rat_of_int w / 2 \<longrightarrow> ws' = ws)"
proof -
  let ?m = "Max (set ws)"
  have pm: "py_max ws = Inr ?m" by (rule py_max_Max[OF assms])
  have mem: "?m \<in> set ws" using assms by (simp add: Max_in)
  have ub: "\<forall>x\<in>set ws. x \<le> ?m" by simp
  show ?thesis
  proof (cases "rat_of_nat (length (filter (\<lambda>x. x = ?m) ws)) < rat_of_int w / 2")
    case True
    let ?ws' = "map (\<lambda>x. if x = ?m then ?m - 1 else x) ws"
    have run: "merge_last w ws = Inr ?ws'" using pm True by (simp add: merge_last_def)
    have gone: "?m \<notin> set ?ws'" by auto
    have idx: "\<forall>i<length ws. ?ws' ! i = (if ws ! i = ?m then ?m - 1 else ws ! i)" by simp
    show ?thesis using pm mem ub run gone idx True
      by (intro exI[of _ ?m] exI[of _ ?ws']) simp
  next
    case False
    have run: "merge_last w ws = Inr ws" using pm False by (simp add: merge_last_def)
    show ?thesis using pm mem ub run False
      by (intro exI[of _ ?m] exI[of _ ws]) simp
  qed
qed

theorem merge_last_spec_witness:
  "[0, 0, 0, 1, 1, 1, 2::int] \<noteq> [] \<and>
   merge_last 3 [0, 0, 0, 1, 1, 1, 2] = Inr [0, 0, 0, 1, 1, 1, 1] \<and>
   merge_last 2 [0, 0, 1, 1, 2, 2, 3] = Inr [0, 0, 1, 1, 2, 2, 3]"
proof -
  have a: "merge_last 3 [0, 0, 0, 1, 1, 1, 2] = Inr [0, 0, 0, 1, 1, 1, 1]"
    by (simp add: merge_last_def)
  have b: "merge_last 2 [0, 0, 1, 1, 2, 2, 3] = Inr [0, 0, 1, 1, 2, 2, 3]"
    by (simp add: merge_last_def)
  show ?thesis
    using merge_last_spec[of "[0, 0, 0, 1, 1, 1, 2]" 3]
      merge_last_spec[of "[0, 0, 1, 1, 2, 2, 3]" 2] a b
    by simp
qed

section \<open>Regression: results\<close>

lemma rss_expand:
  "rss b tab = sum_list (map (\<lambda>r. local_deg r * local_deg r) tab)
               - 2 * b * sum_list (map (\<lambda>r. global_deg r * local_deg r) tab)
               + b * b * sum_list (map (\<lambda>r. global_deg r * global_deg r) tab)"
  unfolding rss_def by (induction tab) (simp_all add: power2_eq_square algebra_simps)

lemma sum_list_all_zero:
  "(\<And>r. r \<in> set tab \<Longrightarrow> f r = (0::rat)) \<Longrightarrow> sum_list (map f tab) = 0"
  by (induction tab) simp_all

lemma sxx_zero_sxy:
  assumes "sum_list (map (\<lambda>r. global_deg r * global_deg r) tab) = 0"
  shows "sum_list (map (\<lambda>r. global_deg r * local_deg r) tab) = 0"
proof -
  have "\<forall>x\<in>set (map (\<lambda>r. global_deg r * global_deg r) tab). x = 0"
    using assms by (subst (asm) sum_list_nonneg_eq_0_iff) auto
  hence "\<forall>r\<in>set tab. global_deg r = 0" by auto
  thus ?thesis by (intro sum_list_all_zero) simp
qed

lemma ols_beta_minimal: "rss (ols_beta tab) tab \<le> rss b tab"
proof -
  let ?sxx = "sum_list (map (\<lambda>r. global_deg r * global_deg r) tab)"
  let ?sxy = "sum_list (map (\<lambda>r. global_deg r * local_deg r) tab)"
  show ?thesis
  proof (cases "?sxx = 0")
    case True
    hence "?sxy = 0" by (rule sxx_zero_sxy)
    thus ?thesis using True by (simp add: rss_expand)
  next
    case False
    have nn: "0 \<le> ?sxx" by (rule sum_list_nonneg) auto
    have beta: "ols_beta tab = ?sxy / ?sxx" using False by (simp add: ols_beta_def)
    have sxy: "?sxy = ols_beta tab * ?sxx" using False beta by simp
    have "rss b tab - rss (ols_beta tab) tab = (b - ols_beta tab) * (b - ols_beta tab) * ?sxx"
      unfolding rss_expand by (subst (1 2) sxy) (simp add: algebra_simps)
    moreover have "0 \<le> (b - ols_beta tab) * (b - ols_beta tab) * ?sxx"
      using nn by (simp add: mult_nonneg_nonneg)
    ultimately show ?thesis by linarith
  qed
qed

text \<open>
  C9. The fit of both bootstrap populations is \<open>ols_fit\<close>: every fitted value is the one
  slope \<open>ols_beta\<close> times the row's global degree, the residual is the local degree
  minus that, and the slope minimises the sum of squared residuals among all the lines
  through the origin. There is no intercept.
\<close>

theorem ols_through_origin:
  "map fitted (ols_fit tab) = map (\<lambda>r. ols_beta tab * global_deg r) tab \<and>
   map resid (ols_fit tab) = map (\<lambda>r. local_deg r - ols_beta tab * global_deg r) tab \<and>
   map global_deg (ols_fit tab) = map global_deg tab \<and>
   (\<forall>b. rss (ols_beta tab) tab \<le> rss b tab)"
  by (simp add: ols_fit_def Let_def comp_def ols_beta_minimal)

text \<open>
  On the two points \<open>(1, 2)\<close> and \<open>(2, 3)\<close> of the line \<open>l = 1 + g\<close> the slope is \<open>8/5\<close> and
  the residuals are not \<open>0\<close>, as a fit with an intercept would have them.
\<close>

lemma ols_fit_example:
  "map (\<lambda>r. (fitted r, resid r))
     (ols_fit (label_rows (Bs 0) [\<lparr>d_gene = ''p'', d_local = 2, d_global = 1\<rparr>,
                                  \<lparr>d_gene = ''q'', d_local = 3, d_global = 2\<rparr>]))
   = [(8 / 5, 2 / 5), (16 / 5, - (1 / 5))]"
  by code_simp

section \<open>Aggregate p-value: results\<close>

lemma map_result_Inr:
  "map_result f xs = Inr ys \<Longrightarrow> list_all2 (\<lambda>x y. f x = Inr y) xs ys"
proof (induction xs arbitrary: ys)
  case Nil
  thus ?case by simp
next
  case (Cons x xs)
  thus ?case by (auto split: sum.splits)
qed

lemma list_all2_kept_cols:
  "list_all2 (\<lambda>x y. kept_cols y = kept_cols x) xs ys \<Longrightarrow> map kept_cols ys = map kept_cols xs"
  by (induction xs ys rule: list_all2_induct) simp_all

lemma add_zscores_cols:
  assumes "add_zscores fit_std tab = Inr out"
  shows "map kept_cols out = map kept_cols tab"
proof -
  let ?tab1 = "map (\<lambda>r. r\<lparr>bs_std := fit_std (fitted r)\<rparr>) tab"
  have "list_all2 (\<lambda>x y. (case float_truediv (Fin (resid x)) (bs_std x) of
              Inl e \<Rightarrow> Inl e | Inr z \<Rightarrow> Inr (x\<lparr>zscore := z\<rparr>)) = Inr y) ?tab1 out"
    using assms unfolding add_zscores_def by (rule map_result_Inr)
  hence "list_all2 (\<lambda>x y. kept_cols y = kept_cols x) ?tab1 out"
    by (rule list_all2_mono) (auto simp: kept_cols_def split: sum.splits)
  hence "list_all2 (\<lambda>x y. kept_cols y = kept_cols x) tab out"
    by (simp add: list_all2_map1 kept_cols_def)
  thus ?thesis by (rule list_all2_kept_cols)
qed

lemma fdr_windows_cols:
  assumes "fdr_windows t tab = Inr out"
  shows "map kept_cols out = map kept_cols tab"
proof -
  have "list_all2 (\<lambda>x y. (case py_truediv (global_deg x) (rat_of_int t) of
              Inl e \<Rightarrow> Inl e | Inr q \<Rightarrow> Inr (x\<lparr>window := py_int q\<rparr>)) = Inr y) tab out"
    using assms unfolding fdr_windows_def by (rule map_result_Inr)
  hence "list_all2 (\<lambda>x y. kept_cols y = kept_cols x) tab out"
    by (rule list_all2_mono) (auto simp: kept_cols_def split: sum.splits)
  thus ?thesis by (rule list_all2_kept_cols)
qed

lemma sum_list_insort_key:
  "sum_list (map f (insort_key k x xs)) = f x + sum_list (map f xs)" for f :: "'a \<Rightarrow> rat"
  by (induction xs) (simp_all add: algebra_simps)

lemma sum_list_sort_key:
  "sum_list (map f (sort_key k xs)) = sum_list (map f xs)" for f :: "'a \<Rightarrow> rat"
  by (induction xs) (simp_all add: sum_list_insort_key)

lemma mean_sort_key: "mean (map f (sort_key k xs)) = mean (map f xs)"
  by (simp add: mean_def sum_list_sort_key)

lemma ols_beta_sort_key: "ols_beta (sort_key k tab) = ols_beta tab"
  by (simp add: ols_beta_def sum_list_sort_key)

lemma score_table_cols:
  assumes "score_table fit_std tab = Inr loc"
  shows "mean (map resid loc) = mean (map resid tab) \<and>
         set (map global_deg loc) = global_deg ` set tab"
proof -
  obtain scored where s: "add_zscores fit_std tab = Inr scored"
    and l: "loc = sort_key (\<lambda>r. desc_rank (zscore r)) scored"
    using assms unfolding score_table_def by (auto split: sum.splits)
  have c: "map kept_cols scored = map kept_cols tab" by (rule add_zscores_cols[OF s])
  have "map (snd \<circ> snd) (map kept_cols scored) = map (snd \<circ> snd) (map kept_cols tab)"
    by (simp only: c)
  hence r: "map resid scored = map resid tab" by (simp add: kept_cols_def comp_def)
  have "map (fst \<circ> snd) (map kept_cols scored) = map (fst \<circ> snd) (map kept_cols tab)"
    by (simp only: c)
  hence g: "map global_deg scored = map global_deg tab" by (simp add: kept_cols_def comp_def)
  have "mean (map resid loc) = mean (map resid scored)" unfolding l by (rule mean_sort_key)
  moreover have "set (map global_deg loc) = set (map global_deg scored)" unfolding l by simp
  ultimately show ?thesis using r g by simp
qed

lemma py_max_Inr:
  assumes "py_max ws = Inr m"
  shows "ws \<noteq> [] \<and> m = Max (set ws)"
proof (cases ws)
  case Nil
  with assms show ?thesis by simp
next
  case (Cons a list)
  show ?thesis using assms unfolding Cons using Max.set_eq_fold[of a list] by simp
qed

lemma restrict_fdr_filter:
  assumes "restrict_fdr loc tab = Inr out"
  shows "loc \<noteq> [] \<and> out = filter (\<lambda>r. global_deg r \<le> Max (set (map global_deg loc))) tab"
proof -
  obtain m where m: "py_max (map global_deg loc) = Inr m"
    and o: "out = filter (\<lambda>r. global_deg r \<le> m) tab"
    using assms by (auto simp: restrict_fdr_def split: sum.splits)
  show ?thesis using py_max_Inr[OF m] o by simp
qed

lemma grouped_resid_cong:
  assumes "map kept_cols a = map kept_cols b"
  shows "grouped_resid a = grouped_resid b"
proof -
  have cols: "map resid (filter (\<lambda>r. iter_name r = g) df)
                = map (snd \<circ> snd) (filter (\<lambda>c. fst c = g) (map kept_cols df))" for g df
    by (simp add: filter_map comp_def kept_cols_def)
  have labels: "map iter_name df = map fst (map kept_cols df)" for df
    by (simp add: comp_def kept_cols_def)
  show ?thesis unfolding grouped_resid_def cols labels assms by (rule refl)
qed

lemma concat_only:
  assumes "x < n" and "\<And>y. y < n \<Longrightarrow> y \<noteq> x \<Longrightarrow> f y = []"
  shows "concat (map f [0..<n]) = f x"
  using assms
proof (induction n)
  case 0
  thus ?case by simp
next
  case (Suc n)
  show ?case
  proof (cases "x = n")
    case True
    have "\<forall>y\<in>set [0..<n]. f y = []" using Suc.prems(2) True by simp
    hence "concat (map f [0..<n]) = []" by simp
    thus ?thesis using True by simp
  next
    case False
    hence "x < n" using Suc.prems(1) by simp
    moreover have "f n = []" using Suc.prems(2)[of n] False by simp
    ultimately show ?thesis using Suc.IH Suc.prems(2) by simp
  qed
qed

lemma population_iteration:
  assumes "bootstrap_population Fdr n tab_of = Inr pop" and "x < n"
  shows "filter (\<lambda>r. iter_name r = Fdr x \<and> global_deg r \<le> m) pop
           = label_rows (Fdr x) (filter (\<lambda>d. d_global d \<le> m) (tab_of x))"
proof -
  let ?Q = "\<lambda>r. iter_name r = Fdr x \<and> global_deg r \<le> m"
  have pop: "pop = concat (map (\<lambda>y. label_rows (Fdr y) (tab_of y)) [0..<n])"
    using assms(1) by (auto simp: bootstrap_population_def split: if_splits)
  have rows: "filter ?Q (label_rows (Fdr y) (tab_of y))
                = (if y = x then label_rows (Fdr x) (filter (\<lambda>d. d_global d \<le> m) (tab_of x))
                   else [])" for y
    by (simp add: label_rows_def filter_map comp_def)
  have "filter ?Q pop = concat (map (\<lambda>y. filter ?Q (label_rows (Fdr y) (tab_of y))) [0..<n])"
    unfolding pop by (simp add: filter_concat comp_def)
  also have "\<dots> = filter ?Q (label_rows (Fdr x) (tab_of x))"
    by (rule concat_only[OF assms(2)]) (simp add: rows)
  finally show ?thesis by (simp add: rows)
qed

lemma population_labels:
  assumes "bootstrap_population Fdr n tab_of = Inr pop"
  shows "0 < n \<and> iter_name ` set pop \<subseteq> Fdr ` {0..<n}"
proof -
  have n: "0 < n" and pop: "pop = concat (map (\<lambda>y. label_rows (Fdr y) (tab_of y)) [0..<n])"
    using assms by (auto simp: bootstrap_population_def split: if_splits)
  have "iter_name ` set pop \<subseteq> Fdr ` {0..<n}"
    unfolding pop by (auto simp: label_rows_def)
  thus ?thesis using n by simp
qed

text \<open>
  The rows of the iteration \<open>x\<close> in the fitted and filtered FDR table, and their
  residuals.
\<close>

lemma fitted_iteration:
  fixes m :: rat
  assumes "bootstrap_population Fdr n tab_of = Inr pop" and "x < n"
    and fdr1_def: "fdr1 = filter (\<lambda>r. global_deg r \<le> m) (ols_fit (sort_key global_deg pop))"
  shows "length (filter (\<lambda>r. iter_name r = Fdr x) fdr1)
           = length (filter (\<lambda>d. d_global d \<le> m) (tab_of x))"
    and "sum_list (map resid (filter (\<lambda>r. iter_name r = Fdr x) fdr1))
           = sum_list (map (\<lambda>d. d_local d - ols_beta pop * d_global d)
                (filter (\<lambda>d. d_global d \<le> m) (tab_of x)))"
proof -
  let ?T = "sort_key global_deg pop"
  let ?b = "ols_beta ?T"
  let ?h = "\<lambda>r. r\<lparr>fitted := ?b * global_deg r, resid := local_deg r - ?b * global_deg r\<rparr>"
  let ?Q = "\<lambda>r. iter_name r = Fdr x \<and> global_deg r \<le> m"
  let ?kept = "filter (\<lambda>d. d_global d \<le> m) (tab_of x)"
  have "filter (\<lambda>r. iter_name r = Fdr x) fdr1 = filter ?Q (map ?h ?T)"
    unfolding fdr1_def ols_fit_def Let_def by (simp add: conj_commute)
  also have "\<dots> = map ?h (filter ?Q ?T)" by (simp add: filter_map comp_def)
  also have "filter ?Q ?T = sort_key global_deg (filter ?Q pop)" by (rule filter_sort)
  also have "filter ?Q pop = label_rows (Fdr x) ?kept" by (rule population_iteration[OF assms(1,2)])
  finally have rows: "filter (\<lambda>r. iter_name r = Fdr x) fdr1
                        = map ?h (sort_key global_deg (label_rows (Fdr x) ?kept))" .
  show "length (filter (\<lambda>r. iter_name r = Fdr x) fdr1) = length ?kept"
    unfolding rows by (simp add: label_rows_def)
  have "sum_list (map resid (filter (\<lambda>r. iter_name r = Fdr x) fdr1))
          = sum_list (map (\<lambda>r. local_deg r - ?b * global_deg r)
               (sort_key global_deg (label_rows (Fdr x) ?kept)))"
    unfolding rows by (simp add: comp_def)
  also have "\<dots> = sum_list (map (\<lambda>r. local_deg r - ?b * global_deg r)
                       (label_rows (Fdr x) ?kept))"
    by (rule sum_list_sort_key)
  also have "\<dots> = sum_list (map (\<lambda>d. d_local d - ?b * d_global d) ?kept)"
    by (simp add: label_rows_def comp_def)
  finally show "sum_list (map resid (filter (\<lambda>r. iter_name r = Fdr x) fdr1))
           = sum_list (map (\<lambda>d. d_local d - ols_beta pop * d_global d) ?kept)"
    by (simp add: ols_beta_sort_key)
qed

text \<open>
  C6, as the claim states it, fails: with \<open>num_bootstraps = 3\<close> no gene of the third FDR
  iteration passes the filter on the global degree, one of the two iterations left has
  a mean residual of at least the empirical \<open>3/2\<close>, and the p-value is \<open>1/2\<close>, where the
  claim gives \<open>1/3\<close>; \<open>1/2\<close> is no multiple of \<open>1/3\<close>.
\<close>

theorem aggregate_pval_not_over_num_bootstraps:
  "num_bootstraps example_args = 3 \<and>
   map_sum id fst
     (generate_data example_args unit_std example_emp example_bs_tab example_fdr_tab)
     = Inr (Aggregate (1 / 2) [(Fdr 0, 2), (Fdr 1, 1)]) \<and>
   (1 / 2 :: rat) \<noteq> 0 / 3 \<and> (1 / 2 :: rat) \<noteq> 1 / 3 \<and> (1 / 2 :: rat) \<noteq> 2 / 3 \<and>
   (1 / 2 :: rat) \<noteq> 3 / 3"
proof -
  have "map_sum id fst
     (generate_data example_args unit_std example_emp example_bs_tab example_fdr_tab)
     = Inr (Aggregate (1 / 2) [(Fdr 0, 2), (Fdr 1, 1)])"
    by code_simp
  thus ?thesis by (simp add: example_args_def)
qed

lemma fdr_stage_aggregateD:
  assumes "fdr_stage gs fit t loc tab = Inr (Aggregate p fdr_means)"
  shows "loc \<noteq> [] \<and> aggregate_pval loc fdr_means = Inr p \<and>
         fdr_means = grouped_resid
           (filter (\<lambda>r. global_deg r \<le> Max (set (map global_deg loc))) tab)"
proof -
  obtain fdr1 fdr2 fdr3 where r: "restrict_fdr loc tab = Inr fdr1"
    and w: "fdr_windows t fdr1 = Inr fdr2" and z: "add_zscores fit fdr2 = Inr fdr3"
    and g: "fdr_means = grouped_resid fdr3"
    and p: "aggregate_pval loc fdr_means = Inr p"
    using assms unfolding fdr_stage_def by (auto simp: Let_def split: sum.splits if_splits)
  have ne: "loc \<noteq> []"
    and f1: "fdr1 = filter (\<lambda>r. global_deg r \<le> Max (set (map global_deg loc))) tab"
    using restrict_fdr_filter[OF r] by simp_all
  have "map kept_cols fdr3 = map kept_cols fdr1"
    using add_zscores_cols[OF z] fdr_windows_cols[OF w] by simp
  hence "grouped_resid fdr3 = grouped_resid fdr1" by (rule grouped_resid_cong)
  thus ?thesis using ne p g f1 by simp
qed

lemma aggregate_pval_value:
  assumes "aggregate_pval loc fdr_means = Inr p"
  shows "fdr_means \<noteq> [] \<and>
         p = rat_of_nat (length (filter (\<lambda>x. mean (map resid loc) \<le> x) (map snd fdr_means)))
             / rat_of_nat (length fdr_means)"
  using assms by (auto simp: aggregate_pval_def Let_def split: if_splits)

lemma aggregate_pval_from_inputs:
  assumes "map_sum id fst (generate_data a standardizer loc_emp bs_tab fdr_tab)
             = Inr (Aggregate p fdr_means)"
  shows "set fdr_means =
           (\<lambda>x. (Fdr x, iteration_resid (num_bootstraps a) fdr_tab loc_emp x)) `
             kept_iterations (num_bootstraps a) fdr_tab loc_emp \<and>
         distinct (map fst fdr_means) \<and>
         length fdr_means = card (kept_iterations (num_bootstraps a) fdr_tab loc_emp) \<and>
         p = rat_of_nat (length (filter (\<lambda>x. mean (map resid loc_emp) \<le> x) (map snd fdr_means)))
             / rat_of_nat (length fdr_means) \<and>
         p = rat_of_nat (card {x \<in> kept_iterations (num_bootstraps a) fdr_tab loc_emp.
                  mean (map resid loc_emp)
                    \<le> iteration_resid (num_bootstraps a) fdr_tab loc_emp x})
             / rat_of_nat (card (kept_iterations (num_bootstraps a) fdr_tab loc_emp)) \<and>
         1 \<le> card (kept_iterations (num_bootstraps a) fdr_tab loc_emp) \<and>
         card (kept_iterations (num_bootstraps a) fdr_tab loc_emp) \<le> num_bootstraps a \<and>
         0 \<le> p \<and> p \<le> 1"
proof -
  let ?n = "num_bootstraps a"
  let ?M = "Max (global_deg ` set loc_emp)"
  let ?K = "kept_iterations ?n fdr_tab loc_emp"
  let ?ir = "iteration_resid ?n fdr_tab loc_emp"
  let ?avg = "mean (map resid loc_emp)"
  obtain fit t loc pop where
    sc: "score_table fit (map (\<lambda>r. r\<lparr>iter_name := Emp\<rparr>) loc_emp) = Inr loc"
    and bp: "bootstrap_population Fdr ?n fdr_tab = Inr pop"
    and st: "fdr_stage (gene_specific a) fit t loc (ols_fit (sort_key global_deg pop))
               = Inr (Aggregate p fdr_means)"
    using assms unfolding generate_data_def sm_ols_def
    by (auto simp: Let_def split: if_splits sum.splits prod.splits)
  have mr: "mean (map resid loc) = ?avg"
    and gl: "set (map global_deg loc) = global_deg ` set loc_emp"
    using score_table_cols[OF sc] by (simp_all add: comp_def image_image)
  define fdr1 where "fdr1 = filter (\<lambda>r. global_deg r \<le> ?M) (ols_fit (sort_key global_deg pop))"
  have ag: "aggregate_pval loc fdr_means = Inr p" and gm: "fdr_means = grouped_resid fdr1"
    using fdr_stage_aggregateD[OF st, unfolded gl, folded fdr1_def] by blast+
  have nz: "fdr_means \<noteq> []"
    and pv: "p = rat_of_nat (length (filter (\<lambda>x. ?avg \<le> x) (map snd fdr_means)))
                 / rat_of_nat (length fdr_means)"
    using aggregate_pval_value[OF ag] unfolding mr by simp_all
  have pop: "pop = concat (map (\<lambda>x. label_rows (Fdr x) (fdr_tab x)) [0..<?n])"
    using bp by (auto simp: bootstrap_population_def split: if_splits)
  have slope: "ols_beta pop = fdr_slope ?n fdr_tab" by (simp add: fdr_slope_def pop)
  have len: "length (filter (\<lambda>r. iter_name r = Fdr x) fdr1)
               = length (kept_rows loc_emp (fdr_tab x))" if "x < ?n" for x
    using fitted_iteration(1)[OF bp that fdr1_def] by (simp add: kept_rows_def)
  have sm: "sum_list (map resid (filter (\<lambda>r. iter_name r = Fdr x) fdr1))
              = sum_list (map (\<lambda>d. d_local d - fdr_slope ?n fdr_tab * d_global d)
                   (kept_rows loc_emp (fdr_tab x)))" if "x < ?n" for x
    using fitted_iteration(2)[OF bp that fdr1_def] by (simp add: kept_rows_def slope)
  have grp: "mean (map resid (filter (\<lambda>r. iter_name r = Fdr x) fdr1)) = ?ir x" if "x < ?n" for x
    unfolding mean_def iteration_resid_def using len[OF that] sm[OF that] by simp
  have "iter_name ` set fdr1 \<subseteq> iter_name ` set (ols_fit (sort_key global_deg pop))"
    unfolding fdr1_def by auto
  also have "\<dots> = iter_name ` set pop" by (simp add: ols_fit_def Let_def image_image)
  also have "\<dots> \<subseteq> Fdr ` {0..<?n}" using population_labels[OF bp] by simp
  finally have sub: "iter_name ` set fdr1 \<subseteq> Fdr ` {0..<?n}" .
  have mem: "Fdr x \<in> iter_name ` set fdr1 \<longleftrightarrow> x \<in> ?K" if "x < ?n" for x
  proof -
    have "Fdr x \<in> iter_name ` set fdr1 \<longleftrightarrow> filter (\<lambda>r. iter_name r = Fdr x) fdr1 \<noteq> []"
      unfolding filter_empty_conv image_iff by metis
    also have "\<dots> \<longleftrightarrow> kept_rows loc_emp (fdr_tab x) \<noteq> []"
      using len[OF that] by (metis length_0_conv)
    finally show ?thesis using that by (simp add: kept_iterations_def)
  qed
  have labels: "iter_name ` set fdr1 = Fdr ` ?K"
  proof (intro equalityI subsetI)
    fix l assume l: "l \<in> iter_name ` set fdr1"
    then obtain x where x: "x < ?n" "l = Fdr x" using sub by auto
    thus "l \<in> Fdr ` ?K" using l mem[OF x(1)] by simp
  next
    fix l assume "l \<in> Fdr ` ?K"
    then obtain x where x: "x \<in> ?K" "l = Fdr x" by auto
    hence "x < ?n" by (simp add: kept_iterations_def)
    thus "l \<in> iter_name ` set fdr1" using x mem by simp
  qed
  have Kn: "?K \<subseteq> {0..<?n}" by (auto simp: kept_iterations_def)
  hence finK: "finite ?K" by (rule finite_subset) simp
  have means: "fdr_means = map (\<lambda>g. (g, mean (map resid (filter (\<lambda>r. iter_name r = g) fdr1))))
                             (remdups (map iter_name fdr1))"
    unfolding gm grouped_resid_def by (rule refl)
  have st_means: "set fdr_means = (\<lambda>x. (Fdr x, ?ir x)) ` ?K"
  proof -
    have "set fdr_means = (\<lambda>g. (g, mean (map resid (filter (\<lambda>r. iter_name r = g) fdr1)))) `
                            (Fdr ` ?K)"
      unfolding means using labels by simp
    also have "\<dots> = (\<lambda>x. (Fdr x, mean (map resid (filter (\<lambda>r. iter_name r = Fdr x) fdr1)))) ` ?K"
      by (simp add: image_image)
    also have "\<dots> = (\<lambda>x. (Fdr x, ?ir x)) ` ?K"
    proof (rule image_cong)
      fix x assume "x \<in> ?K"
      hence "x < ?n" by (simp add: kept_iterations_def)
      thus "(Fdr x, mean (map resid (filter (\<lambda>r. iter_name r = Fdr x) fdr1))) = (Fdr x, ?ir x)"
        by (simp add: grp)
    qed (rule refl)
    finally show ?thesis .
  qed
  have dst1: "distinct (map fst fdr_means)" unfolding means by (simp add: comp_def)
  hence dst: "distinct fdr_means" by (simp add: distinct_map)
  have inj: "inj_on (\<lambda>x. (Fdr x, ?ir x)) A" for A by (simp add: inj_on_def)
  have "length fdr_means = card (set fdr_means)" using dst by (simp add: distinct_card)
  also have "\<dots> = card ?K" unfolding st_means by (rule card_image[OF inj])
  finally have m: "length fdr_means = card ?K" .
  have "length (filter (\<lambda>x. ?avg \<le> x) (map snd fdr_means))
          = length (filter (\<lambda>e. ?avg \<le> snd e) fdr_means)"
    by (simp add: length_filter_map comp_def)
  also have "\<dots> = card ({e. ?avg \<le> snd e} \<inter> set fdr_means)"
    using dst by (rule distinct_length_filter)
  also have "{e. ?avg \<le> snd e} \<inter> set fdr_means = (\<lambda>x. (Fdr x, ?ir x)) ` {x \<in> ?K. ?avg \<le> ?ir x}"
    unfolding st_means by auto
  also have "card \<dots> = card {x \<in> ?K. ?avg \<le> ?ir x}" by (rule card_image[OF inj])
  finally have k: "length (filter (\<lambda>x. ?avg \<le> x) (map snd fdr_means))
                     = card {x \<in> ?K. ?avg \<le> ?ir x}" .
  have pk: "p = rat_of_nat (card {x \<in> ?K. ?avg \<le> ?ir x}) / rat_of_nat (card ?K)"
    using pv unfolding k m .
  have m1: "1 \<le> card ?K" using nz m by (metis length_greater_0_conv Suc_leI One_nat_def)
  have "card ?K \<le> card {0..<?n}" using Kn by (intro card_mono) simp_all
  hence mB: "card ?K \<le> ?n" by simp
  have "card {x \<in> ?K. ?avg \<le> ?ir x} \<le> card ?K" using finK by (intro card_mono) auto
  hence p1: "p \<le> 1" unfolding pk using m1 by (simp add: divide_le_eq_1)
  have p0: "0 \<le> p" unfolding pk by simp
  show ?thesis using st_means dst1 m pv pk m1 mB p0 p1 by (intro conjI)
qed

text \<open>
  In the example the p-value is \<open>1/2\<close> whatever the standardizer returns, provided the
  run returns.
\<close>

lemma example_kept_iterations:
  "kept_iterations 3 example_fdr_tab example_emp = {0, 1}"
proof (intro equalityI subsetI)
  have k2: "kept_rows example_emp (example_fdr_tab 2) = []" by code_simp
  fix x assume "x \<in> kept_iterations 3 example_fdr_tab example_emp"
  hence x: "x < 3" "kept_rows example_emp (example_fdr_tab x) \<noteq> []"
    by (simp_all add: kept_iterations_def)
  from x(1) have "x = 0 \<or> x = 1 \<or> x = 2" by arith
  thus "x \<in> {0, 1}" using x(2) k2 by auto
next
  have k0: "kept_rows example_emp (example_fdr_tab 0) \<noteq> []"
    and k1: "kept_rows example_emp (example_fdr_tab 1) \<noteq> []"
    by code_simp+
  fix x :: nat assume "x \<in> {0, 1}"
  thus "x \<in> kept_iterations 3 example_fdr_tab example_emp"
    using k0 k1 by (auto simp: kept_iterations_def)
qed

lemma example_pval_any_standardizer:
  assumes "map_sum id fst
             (generate_data example_args st example_emp example_bs_tab example_fdr_tab)
             = Inr (Aggregate p ms)"
  shows "p = 1 / 2"
proof -
  have n: "num_bootstraps example_args = 3" by (simp add: example_args_def)
  have i0: "iteration_resid 3 example_fdr_tab example_emp 0 = 2" by code_simp
  have i1: "iteration_resid 3 example_fdr_tab example_emp 1 = 1" by code_simp
  have avg: "mean (map resid example_emp) = 3 / 2" by code_simp
  have sel: "{x \<in> {0, 1::nat}. (3 / 2 :: rat) \<le> iteration_resid 3 example_fdr_tab example_emp x}
               = {0}"
    using i0 i1 by auto
  have "p = rat_of_nat (card {x \<in> kept_iterations (num_bootstraps example_args)
                                   example_fdr_tab example_emp.
                mean (map resid example_emp)
                  \<le> iteration_resid (num_bootstraps example_args) example_fdr_tab
                      example_emp x})
           / rat_of_nat (card (kept_iterations (num_bootstraps example_args)
                                 example_fdr_tab example_emp))"
    using aggregate_pval_from_inputs[OF assms] by blast
  thus ?thesis unfolding n example_kept_iterations avg sel by simp
qed

text \<open>
  C6, amended. When \<open>generate_data\<close> returns in aggregate mode, the grouped \<open>fdr\<close> has one
  row for each FDR iteration that keeps a gene whose global degree is at most the
  empirical maximum, with the mean residual of the genes it keeps; the p-value is
  \<open>k/m\<close>, where \<open>m\<close> is the number of those iterations and \<open>k\<close> the number of them whose
  mean residual is at least the empirical mean residual. \<open>1 \<le> m \<le> num_bootstraps\<close>, and
  the p-value lies in \<open>[0, 1]\<close>.
\<close>

theorem aggregate_pval_fraction:
  assumes "map_sum id fst (generate_data a standardizer loc_emp bs_tab fdr_tab)
             = Inr (Aggregate p fdr_means)"
  shows "set fdr_means =
           (\<lambda>x. (Fdr x, iteration_resid (num_bootstraps a) fdr_tab loc_emp x)) `
             kept_iterations (num_bootstraps a) fdr_tab loc_emp \<and>
         distinct (map fst fdr_means) \<and>
         length fdr_means = card (kept_iterations (num_bootstraps a) fdr_tab loc_emp) \<and>
         p = rat_of_nat (length (filter (\<lambda>x. mean (map resid loc_emp) \<le> x) (map snd fdr_means)))
             / rat_of_nat (length fdr_means) \<and>
         p = rat_of_nat (card {x \<in> kept_iterations (num_bootstraps a) fdr_tab loc_emp.
                  mean (map resid loc_emp)
                    \<le> iteration_resid (num_bootstraps a) fdr_tab loc_emp x})
             / rat_of_nat (card (kept_iterations (num_bootstraps a) fdr_tab loc_emp)) \<and>
         1 \<le> card (kept_iterations (num_bootstraps a) fdr_tab loc_emp) \<and>
         card (kept_iterations (num_bootstraps a) fdr_tab loc_emp) \<le> num_bootstraps a \<and>
         0 \<le> p \<and> p \<le> 1"
  by (rule aggregate_pval_from_inputs[OF assms])

theorem aggregate_pval_fraction_witness:
  "map_sum id fst
     (generate_data example_args unit_std example_emp example_bs_tab example_fdr_tab)
     = Inr (Aggregate (1 / 2) [(Fdr 0, 2), (Fdr 1, 1)]) \<and>
   kept_iterations (num_bootstraps example_args) example_fdr_tab example_emp = {0, 1} \<and>
   iteration_resid (num_bootstraps example_args) example_fdr_tab example_emp 0 = 2 \<and>
   iteration_resid (num_bootstraps example_args) example_fdr_tab example_emp 1 = 1 \<and>
   mean (map resid example_emp) = 3 / 2 \<and>
   card (kept_iterations (num_bootstraps example_args) example_fdr_tab example_emp)
     \<le> num_bootstraps example_args"
proof -
  have run: "map_sum id fst
     (generate_data example_args unit_std example_emp example_bs_tab example_fdr_tab)
     = Inr (Aggregate (1 / 2) [(Fdr 0, 2), (Fdr 1, 1)])"
    by code_simp
  have n: "num_bootstraps example_args = 3" by (simp add: example_args_def)
  have i0: "iteration_resid 3 example_fdr_tab example_emp 0 = 2" by code_simp
  have i1: "iteration_resid 3 example_fdr_tab example_emp 1 = 1" by code_simp
  have avg: "mean (map resid example_emp) = 3 / 2" by code_simp
  have K: "kept_iterations 3 example_fdr_tab example_emp = {0, 1}"
    by (rule example_kept_iterations)
  show ?thesis using aggregate_pval_fraction[OF run] run K i0 i1 avg unfolding n by simp
qed

section \<open>The guard on the output file: results\<close>

lemma locality_name_foo: "locality_name ''foo'' = ''foo_Locality.csv''"
  by (simp add: locality_name_def)

lemma locality_name_twice: "locality_name ''foo_Locality.csv'' = ''foo_Locality_Locality.csv''"
  by (simp add: locality_name_def)

lemma dirname_foo: "dirname ''foo_Locality.csv'' = []"
  by (simp add: dirname_def)

text \<open>
  C8. The claim: when the result table that the run would write exists, the run stops
  before any term is analysed and nothing is overwritten. The code renames \<open>args.out\<close>
  to \<open>foo_Locality.csv\<close> first and then tests the name built from the renamed path,
  \<open>foo_Locality_Locality.csv\<close>. With the table of an earlier run in place the term is
  analysed and the table overwritten; with a file of the doubled name the run is
  skipped although no result table exists.
\<close>

theorem existing_table_overwritten:
  "old_fs ''foo_Locality.csv'' = Some (File ''old table'') \<and>
   locality (\<lambda>t. Inr t) (\<lambda>t r. ''png'') (\<lambda>rs. ''new table'') (OutPath ''foo'') False [''t1'']
       old_fs
     = (old_fs(''foo_Locality.csv'' \<mapsto> File ''new table''), Inr (Completed [''t1''] [''t1''])) \<and>
   other_fs ''foo_Locality.csv'' = None \<and>
   locality (\<lambda>t. Inr t) (\<lambda>t r. ''png'') (\<lambda>rs. ''new table'') (OutPath ''foo'') False [''t1'']
       other_fs
     = (other_fs, Inr (Skipped ''foo_Locality_Locality.csv exists! Skipping!''))"
  by (simp add: locality_def locality_name_foo locality_name_twice dirname_foo old_fs_def
        other_fs_def write_file_def)


section \<open>Gene-specific FDR: results\<close>

lemma num_real_cong: "map zscore loc' = map zscore loc \<Longrightarrow> num_real loc' t = num_real loc t"
proof -
  assume a: "map zscore loc' = map zscore loc"
  have h: "num_real l t = length (filter (\<lambda>z. float_ge z t) (map zscore l))" for l
    unfolding num_real_def length_filter_map comp_def by (rule refl)
  show ?thesis by (simp only: h a)
qed

lemma zfdr_cong: "map zscore loc' = map zscore loc \<Longrightarrow> zfdr F loc' t = zfdr F loc t"
  using num_real_cong[of loc' loc t] by (simp add: zfdr_def)

lemma pass1_zscore: "zscore (pass1 v t r) = zscore r"
  by (simp add: pass1_def)

lemma fold_pass1_zscore: "zscore (fold (pass1 v) ts r) = zscore r"
  by (induction ts arbitrary: r) (simp_all add: pass1_zscore)

lemma fold_pass1_fdr:
  "fdr (fold (pass1 v) ts r) =
     (if filter (\<lambda>t. float_ge (zscore r) t) ts = [] then fdr r
      else Some (v (last (filter (\<lambda>t. float_ge (zscore r) t) ts))))"
proof (induction ts arbitrary: r)
  case Nil
  show ?case by simp
next
  case (Cons t ts)
  have ih: "fdr (fold (pass1 v) ts (pass1 v t r)) =
     (if filter (\<lambda>t. float_ge (zscore r) t) ts = [] then fdr (pass1 v t r)
      else Some (v (last (filter (\<lambda>t. float_ge (zscore r) t) ts))))"
    using Cons[of "pass1 v t r"] by (simp only: pass1_zscore)
  have f: "fdr (pass1 v t r) = (if float_ge (zscore r) t then Some (v t) else fdr r)"
    by (simp add: pass1_def)
  have step: "fold (pass1 v) (t # ts) r = fold (pass1 v) ts (pass1 v t r)" by simp
  show ?case unfolding step ih f by simp
qed

lemma fdr_pass_pass1: "fdr_pass F t loc = map (pass1 (zfdr F loc) t) loc"
  by (simp add: fdr_pass_def pass1_def Let_def)

lemma fold_fdr_pass:
  "map zscore loc' = map zscore loc \<Longrightarrow>
   fold (fdr_pass F) ts loc' = map (fold (pass1 (zfdr F loc)) ts) loc'"
proof (induction ts arbitrary: loc')
  case Nil
  show ?case by simp
next
  case (Cons t ts)
  let ?l = "fdr_pass F t loc'"
  have eqv: "zfdr F loc' = zfdr F loc" by (rule ext) (rule zfdr_cong[OF Cons.prems])
  have step: "?l = map (pass1 (zfdr F loc) t) loc'" by (simp add: fdr_pass_pass1 eqv)
  have "map zscore ?l = map zscore loc" using Cons.prems by (simp add: step comp_def pass1_zscore)
  from Cons.IH[OF this] show ?case by (simp add: step comp_def)
qed

lemma gene_specific_fdr_rows:
  "gene_specific_fdr F loc = map (fold (pass1 (zfdr F loc)) [0..7]) loc"
  unfolding gene_specific_fdr_def by (rule fold_fdr_pass) simp

lemma float_ge_mono: "float_ge z k \<Longrightarrow> j \<le> k \<Longrightarrow> float_ge z j"
proof (cases z)
  case (Fin q)
  assume "float_ge z k" "j \<le> k"
  hence "rat_of_int k \<le> q" "rat_of_int j \<le> rat_of_int k" using Fin by simp_all
  thus ?thesis using Fin by simp
qed simp_all

lemma last_filter_upto:
  assumes "0 \<le> t" "t \<le> 7" "float_ge z t" "t = 7 \<or> \<not> float_ge z (t + 1)"
  shows "filter (\<lambda>k. float_ge z k) [0..7] \<noteq> [] \<and>
         last (filter (\<lambda>k. float_ge z k) [0..7]) = t"
proof -
  have split: "[0..7] = [0..t - 1] @ t # [t + 1..7]"
    using assms(1,2) by (metis upto_split1 upto_rec1 add.commute diff_add_cancel 
       upto_split2) 
  have none: "filter (\<lambda>k. float_ge z k) [t + 1..7] = []"
  proof (cases "t = 7")
    case True thus ?thesis by simp
  next
    case False
    hence top: "\<not> float_ge z (t + 1)" using assms(4) by simp
    have "\<forall>k\<in>set [t + 1..7]. \<not> float_ge z k"
    proof
      fix k assume "k \<in> set [t + 1..7]"
      hence "t + 1 \<le> k" by simp
      thus "\<not> float_ge z k" using top float_ge_mono by blast
    qed
    thus ?thesis by (simp add: filter_empty_conv)
  qed
  show ?thesis unfolding split using none assms(3) by simp
qed

text \<open>
  C4. The claim: \<open>num_random\<close> is the mean over all FDR iterations of the number of the
  iteration's genes at or above the threshold, an iteration without such a gene
  counting \<open>0\<close>. The code filters the rows first and groups afterwards, so an iteration
  without such a gene is no group at all: for the two iterations of \<open>example_fdr\<close> and
  the threshold \<open>0\<close> it takes the mean of the one count \<open>2\<close>, where the claim gives
  \<open>(2 + 0) / 2 = 1\<close>.
\<close>

theorem num_random_skips_empty_iterations:
  "num_random example_fdr 0 = 2 \<and> num_random_claimed 2 example_fdr 0 = 1"
proof -
  have a: "num_random example_fdr 0 = 2" by code_simp
  have b: "num_random_claimed 2 example_fdr 0 = 1" by code_simp
  show ?thesis using a b by simp
qed

lemma last_filter_upto_self:
  assumes "0 \<le> t" "float_ge z t"
  shows "filter (\<lambda>k. float_ge z k) [0..t] \<noteq> [] \<and>
         last (filter (\<lambda>k. float_ge z k) [0..t]) = t"
proof -
  have "[0..t] = [0..t - 1] @ [t]" using assms(1) by (rule upto_rec2)
  thus ?thesis using assms(2) by simp
qed

text \<open>
  C5. Let the z-score of the empirical row \<open>i\<close> reach the threshold \<open>t\<close> in \<open>0..7\<close>
  (\<open>zscore >= t\<close>, which for a number \<open>Fin q\<close> is \<open>t \<le> q\<close>). After
  the passes for \<open>0..t\<close> the row holds \<open>zfdr\<close> of \<open>t\<close>, whatever the earlier passes wrote;
  when \<open>t\<close> is the highest threshold that the z-score reaches, the row holds that value
  after the whole loop; and the value is \<open>num_random/num_real\<close>, or \<open>1\<close> when one of the two
  is \<open>0\<close>.
\<close>

theorem fdr_highest_threshold:
  assumes "i < length loc" and "0 \<le> t" and "t \<le> 7"
    and "float_ge (zscore (loc ! i)) t"
  shows "fdr (fold (fdr_pass F) [0..t] loc ! i) = Some (zfdr F loc t) \<and>
         (t = 7 \<or> \<not> float_ge (zscore (loc ! i)) (t + 1) \<longrightarrow>
            fdr (gene_specific_fdr F loc ! i) = Some (zfdr F loc t)) \<and>
         zfdr F loc t = (if num_real loc t = 0 \<or> num_random F t = 0 then 1
                         else num_random F t / rat_of_nat (num_real loc t))"
proof -
  have "fold (fdr_pass F) [0..t] loc = map (fold (pass1 (zfdr F loc)) [0..t]) loc"
    by (rule fold_fdr_pass) simp
  hence "fdr (fold (fdr_pass F) [0..t] loc ! i) = fdr (fold (pass1 (zfdr F loc)) [0..t] (loc ! i))"
    using assms(1) by simp
  also have "\<dots> = Some (zfdr F loc t)"
    using last_filter_upto_self[OF assms(2,4)] by (simp add: fold_pass1_fdr)
  finally have one: "fdr (fold (fdr_pass F) [0..t] loc ! i) = Some (zfdr F loc t)" .
  have all: "fdr (gene_specific_fdr F loc ! i) = Some (zfdr F loc t)"
    if top: "t = 7 \<or> \<not> float_ge (zscore (loc ! i)) (t + 1)"
  proof -
    have "fdr (gene_specific_fdr F loc ! i) = fdr (fold (pass1 (zfdr F loc)) [0..7] (loc ! i))"
      using assms(1) by (simp add: gene_specific_fdr_rows)
    also have "\<dots> = Some (zfdr F loc t)"
      using last_filter_upto[OF assms(2-4) top] by (simp add: fold_pass1_fdr)
    finally show ?thesis .
  qed
  have val: "zfdr F loc t = (if num_real loc t = 0 \<or> num_random F t = 0 then 1
                         else num_random F t / rat_of_nat (num_real loc t))"
    by (simp add: zfdr_def)
  show ?thesis using one all val by blast
qed

theorem fdr_highest_threshold_witness:
  "(2::nat) < length example_loc \<and> (0::int) \<le> 1 \<and> (1::int) \<le> 7 \<and>
   zscore (example_loc ! 2) = Fin (3 / 2) \<and> float_ge (Fin (3 / 2)) 1 \<and>
   \<not> float_ge (Fin (3 / 2)) (1 + 1) \<and>
   fdr (fold (fdr_pass example_fdr) [0..1] example_loc ! 2) = Some (1 / 3) \<and>
   fdr (gene_specific_fdr example_fdr example_loc ! 2) = Some (1 / 3) \<and>
   fdr (gene_specific_fdr example_fdr example_loc ! 0) = Some 1"
proof -
  have l: "length example_loc = 5" by (simp add: example_loc_def)
  have z2: "zscore (example_loc ! 2) = Fin (3 / 2)"
    and z0: "zscore (example_loc ! 0) = Fin (15 / 2)"
    by (simp_all add: example_loc_def scored_row_def)
  have v1: "zfdr example_fdr example_loc 1 = 1 / 3" by code_simp
  have v7: "zfdr example_fdr example_loc 7 = 1" by code_simp
  show ?thesis
    using fdr_highest_threshold[of 2 example_loc 1 example_fdr]
      fdr_highest_threshold[of 0 example_loc 7 example_fdr] l z0 z2 v1 v7
    by simp
qed


text \<open>
  C10. When the empirical table comes without an \<open>fdr\<close> value for the row \<open>i\<close>, the row
  is still without one after the loop if its z-score does not reach \<open>0\<close>, and has one if
  its z-score is at least \<open>0\<close>. For a z-score that is a number \<open>q\<close>: no value if \<open>q < 0\<close>,
  a value if \<open>0 \<le> q\<close>.
\<close>

theorem fdr_unset_below_zero:
  assumes "i < length loc" and "fdr (loc ! i) = None"
  shows "(\<not> float_ge (zscore (loc ! i)) 0 \<longrightarrow> fdr (gene_specific_fdr F loc ! i) = None) \<and>
         (float_ge (zscore (loc ! i)) 0 \<longrightarrow> fdr (gene_specific_fdr F loc ! i) \<noteq> None) \<and>
         (\<forall>q. zscore (loc ! i) = Fin q \<longrightarrow>
            (q < 0 \<longrightarrow> fdr (gene_specific_fdr F loc ! i) = None) \<and>
            (0 \<le> q \<longrightarrow> fdr (gene_specific_fdr F loc ! i) \<noteq> None))"
proof -
  let ?z = "zscore (loc ! i)"
  have row: "fdr (gene_specific_fdr F loc ! i) = fdr (fold (pass1 (zfdr F loc)) [0..7] (loc ! i))"
    using assms(1) by (simp add: gene_specific_fdr_rows)
  have neg: "fdr (gene_specific_fdr F loc ! i) = None" if below: "\<not> float_ge ?z 0"
  proof -
    have "\<forall>k\<in>set [0..7]. \<not> float_ge ?z k"
    proof
      fix k :: int assume "k \<in> set [0..7]"
      hence "0 \<le> k" by simp
      thus "\<not> float_ge ?z k" using below float_ge_mono by blast
    qed
    hence "filter (\<lambda>k. float_ge ?z k) [0..7] = []" by (simp add: filter_empty_conv)
    thus ?thesis using assms(2) by (simp add: row fold_pass1_fdr)
  qed
  have pos: "fdr (gene_specific_fdr F loc ! i) \<noteq> None" if "float_ge ?z 0"
  proof -
    have "(0::int) \<in> set [0..7] \<and> float_ge ?z 0" using that by simp
    hence "filter (\<lambda>k. float_ge ?z k) [0..7] \<noteq> []"
      unfolding filter_empty_conv by blast
    thus ?thesis by (simp add: row fold_pass1_fdr)
  qed
  have fin: "(q < 0 \<longrightarrow> fdr (gene_specific_fdr F loc ! i) = None) \<and>
            (0 \<le> q \<longrightarrow> fdr (gene_specific_fdr F loc ! i) \<noteq> None)" if "?z = Fin q" for q
    using neg pos that by (simp add: not_le)
  show ?thesis using neg pos fin by blast
qed

theorem fdr_unset_below_zero_witness:
  "(4::nat) < length example_loc \<and> fdr (example_loc ! 4) = None \<and>
   zscore (example_loc ! 4) = Fin (- 1) \<and> \<not> float_ge (Fin (- 1)) 0 \<and>
   fdr (gene_specific_fdr example_fdr example_loc ! 4) = None \<and>
   fdr (example_loc ! 3) = None \<and> zscore (example_loc ! 3) = Fin (1 / 2) \<and>
   float_ge (Fin (1 / 2)) 0 \<and>
   fdr (gene_specific_fdr example_fdr example_loc ! 3) \<noteq> None"
proof -
  have l: "length example_loc = 5" by (simp add: example_loc_def)
  have r4: "fdr (example_loc ! 4) = None" "zscore (example_loc ! 4) = Fin (- 1)"
    and r3: "fdr (example_loc ! 3) = None" "zscore (example_loc ! 3) = Fin (1 / 2)"
    by (simp_all add: example_loc_def scored_row_def)
  show ?thesis
    using fdr_unset_below_zero[of 4 example_loc example_fdr]
      fdr_unset_below_zero[of 3 example_loc example_fdr] l r4 r3
    by simp
qed

section \<open>Z-scores: results\<close>

lemma map_result_error:
  assumes "\<exists>x\<in>set xs. f x = Inl e" and "\<forall>x\<in>set xs. \<forall>e'. f x = Inl e' \<longrightarrow> e' = e"
  shows "map_result f xs = Inl e"
  using assms
proof (induction xs)
  case Nil
  thus ?case by simp
next
  case (Cons x xs)
  show ?case
  proof (cases "f x")
    case (Inl e')
    thus ?thesis using Cons.prems(2) by simp
  next
    case (Inr y)
    hence "\<exists>x\<in>set xs. f x = Inl e" using Cons.prems(1) by auto
    hence "map_result f xs = Inl e" using Cons.IH Cons.prems(2) by simp
    thus ?thesis using Inr by simp
  qed
qed

lemma map_result_all_Inr:
  "\<forall>x\<in>set xs. f x = Inr (g x) \<Longrightarrow> map_result f xs = Inr (map g xs)"
  by (induction xs) simp_all

lemma float_truediv_zero: "float_truediv a (Fin 0) = Inl ZeroDivisionError"
  by simp

lemma float_truediv_error: "float_truediv a b = Inl e \<Longrightarrow> e = ZeroDivisionError \<and> b = Fin 0"
  by (cases "(a, b)" rule: float_truediv.cases) (auto split: if_splits)

lemma float_truediv_Inr: "b \<noteq> Fin 0 \<Longrightarrow> \<exists>z. float_truediv a b = Inr z"
  by (cases "float_truediv a b") (auto dest: float_truediv_error)

lemma float_ge_not_NaN: "float_ge z t \<Longrightarrow> z \<noteq> NaN"
  by (cases z) simp_all

lemma add_zscores_zero:
  assumes "\<exists>r\<in>set tab. fit_std (fitted r) = Fin 0"
  shows "add_zscores fit_std tab = Inl ZeroDivisionError"
  unfolding add_zscores_def
proof (rule map_result_error)
  obtain r where r: "r \<in> set tab" "fit_std (fitted r) = Fin 0" using assms by blast
  let ?r = "r\<lparr>bs_std := fit_std (fitted r)\<rparr>"
  have "?r \<in> set (map (\<lambda>r. r\<lparr>bs_std := fit_std (fitted r)\<rparr>) tab)" using r(1) by simp
  moreover have "(case float_truediv (Fin (resid ?r)) (bs_std ?r) of
                    Inl e \<Rightarrow> Inl e | Inr z \<Rightarrow> Inr (?r\<lparr>zscore := z\<rparr>)) = Inl ZeroDivisionError"
    using r(2) by simp
  ultimately show "\<exists>x\<in>set (map (\<lambda>r. r\<lparr>bs_std := fit_std (fitted r)\<rparr>) tab).
      (case float_truediv (Fin (resid x)) (bs_std x) of
         Inl e \<Rightarrow> Inl e | Inr z \<Rightarrow> Inr (x\<lparr>zscore := z\<rparr>)) = Inl ZeroDivisionError"
    by blast
  show "\<forall>x\<in>set (map (\<lambda>r. r\<lparr>bs_std := fit_std (fitted r)\<rparr>) tab). \<forall>e'.
      (case float_truediv (Fin (resid x)) (bs_std x) of
         Inl e \<Rightarrow> Inl e | Inr z \<Rightarrow> Inr (x\<lparr>zscore := z\<rparr>)) = Inl e' \<longrightarrow> e' = ZeroDivisionError"
    by (auto split: sum.splits dest: float_truediv_error)
qed

lemma add_zscores_nonzero:
  assumes "\<forall>r\<in>set tab. fit_std (fitted r) \<noteq> Fin 0"
  shows "\<exists>out. add_zscores fit_std tab = Inr out \<and> length out = length tab \<and>
           (\<forall>i<length tab. bs_std (out ! i) = fit_std (fitted (tab ! i)) \<and>
              float_truediv (Fin (resid (tab ! i))) (fit_std (fitted (tab ! i)))
                = Inr (zscore (out ! i)))"
proof -
  let ?g = "\<lambda>r. r\<lparr>zscore := projr (float_truediv (Fin (resid r)) (bs_std r))\<rparr>"
  let ?tab1 = "map (\<lambda>r. r\<lparr>bs_std := fit_std (fitted r)\<rparr>) tab"
  have ok: "float_truediv (Fin (resid r)) (fit_std (fitted r))
              = Inr (projr (float_truediv (Fin (resid r)) (fit_std (fitted r))))"
    if "r \<in> set tab" for r
    using float_truediv_Inr[of "fit_std (fitted r)" "Fin (resid r)"] assms that by auto
  have "\<forall>x\<in>set ?tab1. (case float_truediv (Fin (resid x)) (bs_std x) of
            Inl e \<Rightarrow> Inl e | Inr z \<Rightarrow> Inr (x\<lparr>zscore := z\<rparr>)) = Inr (?g x)"
  proof
    fix x assume "x \<in> set ?tab1"
    then obtain r where r: "r \<in> set tab" and x: "x = r\<lparr>bs_std := fit_std (fitted r)\<rparr>" by auto
    obtain z where z: "float_truediv (Fin (resid r)) (fit_std (fitted r)) = Inr z"
      using float_truediv_Inr[of "fit_std (fitted r)" "Fin (resid r)"] assms r by auto
    show "(case float_truediv (Fin (resid x)) (bs_std x) of
            Inl e \<Rightarrow> Inl e | Inr z \<Rightarrow> Inr (x\<lparr>zscore := z\<rparr>)) = Inr (?g x)"
      unfolding x by (simp add: z)
  qed
  hence run: "add_zscores fit_std tab = Inr (map ?g ?tab1)"
    unfolding add_zscores_def by (rule map_result_all_Inr)
  have "\<forall>i<length tab. bs_std (map ?g ?tab1 ! i) = fit_std (fitted (tab ! i)) \<and>
              float_truediv (Fin (resid (tab ! i))) (fit_std (fitted (tab ! i)))
                = Inr (zscore (map ?g ?tab1 ! i))"
    using ok by simp
  thus ?thesis using run by (intro exI[of _ "map ?g ?tab1"]) simp
qed

lemma num_real_drop_nan: "num_real (filter (\<lambda>r. zscore r \<noteq> NaN) loc) t = num_real loc t"
proof -
  have "filter (\<lambda>r. float_ge (zscore r) t) (filter (\<lambda>r. zscore r \<noteq> NaN) loc)
          = filter (\<lambda>r. float_ge (zscore r) t) loc"
    by (auto simp: filter_filter intro: filter_cong dest: float_ge_not_NaN)
  thus ?thesis by (simp only: num_real_def)
qed

lemma num_random_drop_nan:
  "num_random (filter (\<lambda>r. zscore r \<noteq> NaN) fdr_tab) t = num_random fdr_tab t"
proof -
  have "filter (\<lambda>r. float_ge (zscore r) t) (filter (\<lambda>r. zscore r \<noteq> NaN) fdr_tab)
          = filter (\<lambda>r. float_ge (zscore r) t) fdr_tab"
    by (auto simp: filter_filter intro: filter_cong dest: float_ge_not_NaN)
  thus ?thesis by (simp only: num_random_def)
qed

lemma nan_row_keeps_fdr:
  assumes "i < length loc" and "zscore (loc ! i) = NaN"
  shows "fdr (gene_specific_fdr F loc ! i) = fdr (loc ! i)"
proof -
  have "filter (\<lambda>k. float_ge (zscore (loc ! i)) k) [0..7] = []"
    using assms(2) by (simp add: filter_empty_conv)
  thus ?thesis using assms(1) by (simp add: gene_specific_fdr_rows fold_pass1_fdr)
qed

text \<open>
  C7, as the claim states it, fails: the lookup \<open>nan_at_two\<close> returns NaN for the second
  row, the scoring returns without an error, the row's z-score is NaN, the row is
  counted at no threshold and it gets no \<open>fdr\<close>. Nothing flags it.
\<close>

theorem nan_deviation_not_detected:
  "score_table nan_at_two example_unscored = Inr example_nan_scored \<and>
   zscore (example_nan_scored ! 1) = NaN \<and>
   num_real example_nan_scored 0 = 1 \<and>
   map fdr (gene_specific_fdr example_fdr example_nan_scored) = [Some 1, None]"
proof -
  have a: "score_table nan_at_two example_unscored = Inr example_nan_scored" by code_simp
  have b: "zscore (example_nan_scored ! 1) = NaN" by (simp add: example_nan_scored_def)
  have c: "num_real example_nan_scored 0 = 1" by code_simp
  have d: "map fdr (gene_specific_fdr example_fdr example_nan_scored) = [Some 1, None]"
    by code_simp
  show ?thesis using a b c d by simp
qed

text \<open>
  C7, amended. When the standardizer returns \<open>0\<close> for some row, the division raises
  ZeroDivisionError and the scoring ends with that error: no z-score reaches the FDR
  step. When it returns \<open>0\<close> for no row, the scoring returns, each row holds the
  deviation that was looked up and the quotient as the float division gives it, and
  nothing tests the quotient: a NaN deviation gives a NaN z-score. Rows with a NaN
  z-score are counted neither in \<open>num_real\<close> nor in \<open>num_random\<close> at any threshold, as if
  they were not in the table, and the loop leaves their \<open>fdr\<close> as it was.
\<close>

theorem zero_deviation_raises_nan_passes:
  "((\<exists>r\<in>set tab. fit_std (fitted r) = Fin 0) \<longrightarrow>
      add_zscores fit_std tab = Inl ZeroDivisionError \<and>
      score_table fit_std tab = Inl ZeroDivisionError) \<and>
   ((\<forall>r\<in>set tab. fit_std (fitted r) \<noteq> Fin 0) \<longrightarrow>
      (\<exists>out. add_zscores fit_std tab = Inr out \<and> length out = length tab \<and>
         (\<forall>i<length tab. bs_std (out ! i) = fit_std (fitted (tab ! i)) \<and>
            float_truediv (Fin (resid (tab ! i))) (fit_std (fitted (tab ! i)))
              = Inr (zscore (out ! i)) \<and>
            (fit_std (fitted (tab ! i)) = NaN \<longrightarrow> zscore (out ! i) = NaN)))) \<and>
   (\<forall>t. num_real (filter (\<lambda>r. zscore r \<noteq> NaN) loc) t = num_real loc t \<and>
        num_random (filter (\<lambda>r. zscore r \<noteq> NaN) fdr_tab) t = num_random fdr_tab t) \<and>
   (\<forall>i<length loc. zscore (loc ! i) = NaN \<longrightarrow>
        fdr (gene_specific_fdr fdr_tab loc ! i) = fdr (loc ! i))"
proof (intro conjI impI allI)
  assume z: "\<exists>r\<in>set tab. fit_std (fitted r) = Fin 0"
  show a: "add_zscores fit_std tab = Inl ZeroDivisionError" by (rule add_zscores_zero[OF z])
  show "score_table fit_std tab = Inl ZeroDivisionError" by (simp add: score_table_def a)
next
  assume nz: "\<forall>r\<in>set tab. fit_std (fitted r) \<noteq> Fin 0"
  obtain out where o: "add_zscores fit_std tab = Inr out" "length out = length tab"
    and q: "\<forall>i<length tab. bs_std (out ! i) = fit_std (fitted (tab ! i)) \<and>
              float_truediv (Fin (resid (tab ! i))) (fit_std (fitted (tab ! i)))
                = Inr (zscore (out ! i))"
    using add_zscores_nonzero[OF nz] by blast
  have "\<forall>i<length tab. bs_std (out ! i) = fit_std (fitted (tab ! i)) \<and>
            float_truediv (Fin (resid (tab ! i))) (fit_std (fitted (tab ! i)))
              = Inr (zscore (out ! i)) \<and>
            (fit_std (fitted (tab ! i)) = NaN \<longrightarrow> zscore (out ! i) = NaN)"
  proof (intro allI impI)
    fix i assume i: "i < length tab"
    have d: "float_truediv (Fin (resid (tab ! i))) (fit_std (fitted (tab ! i)))
              = Inr (zscore (out ! i))" using q i by blast
    have "zscore (out ! i) = NaN" if "fit_std (fitted (tab ! i)) = NaN"
      using d unfolding that by simp
    thus "bs_std (out ! i) = fit_std (fitted (tab ! i)) \<and>
            float_truediv (Fin (resid (tab ! i))) (fit_std (fitted (tab ! i)))
              = Inr (zscore (out ! i)) \<and>
            (fit_std (fitted (tab ! i)) = NaN \<longrightarrow> zscore (out ! i) = NaN)"
      using q i d by blast
  qed
  thus "\<exists>out. add_zscores fit_std tab = Inr out \<and> length out = length tab \<and>
         (\<forall>i<length tab. bs_std (out ! i) = fit_std (fitted (tab ! i)) \<and>
            float_truediv (Fin (resid (tab ! i))) (fit_std (fitted (tab ! i)))
              = Inr (zscore (out ! i)) \<and>
            (fit_std (fitted (tab ! i)) = NaN \<longrightarrow> zscore (out ! i) = NaN))"
    using o by blast
next
  fix t show "num_real (filter (\<lambda>r. zscore r \<noteq> NaN) loc) t = num_real loc t"
    by (rule num_real_drop_nan)
next
  fix t show "num_random (filter (\<lambda>r. zscore r \<noteq> NaN) fdr_tab) t = num_random fdr_tab t"
    by (rule num_random_drop_nan)
next
  fix i assume "i < length loc" "zscore (loc ! i) = NaN"
  thus "fdr (gene_specific_fdr fdr_tab loc ! i) = fdr (loc ! i)" by (rule nan_row_keeps_fdr)
qed

theorem zero_deviation_raises_nan_passes_witness:
  "fitted (example_unscored ! 1) = 2 \<and> zero_at_two 2 = Fin 0 \<and>
   score_table zero_at_two example_unscored = Inl ZeroDivisionError \<and>
   nan_at_two 1 = Fin 1 \<and> nan_at_two 2 = NaN \<and>
   add_zscores nan_at_two example_unscored = Inr example_nan_scored \<and>
   zscore (example_nan_scored ! 1) = NaN \<and>
   fdr (gene_specific_fdr example_fdr example_nan_scored ! 1) = None"
proof -
  have tab: "set example_unscored = {unscored_row ''a'' 1 3, unscored_row ''b'' 2 5}"
    by (simp add: example_unscored_def)
  have f: "fitted (unscored_row ''a'' 1 3) = 1" "fitted (unscored_row ''b'' 2 5) = 2"
    by (simp_all add: unscored_row_def)
  have h1: "\<exists>r\<in>set example_unscored. zero_at_two (fitted r) = Fin 0"
    unfolding tab by (simp add: f zero_at_two_def)
  have h2: "\<forall>r\<in>set example_unscored. nan_at_two (fitted r) \<noteq> Fin 0"
    unfolding tab by (simp add: f nan_at_two_def)
  have run: "add_zscores nan_at_two example_unscored = Inr example_nan_scored" by code_simp
  have l: "length example_nan_scored = 2" "zscore (example_nan_scored ! 1) = NaN"
    "fdr (example_nan_scored ! 1) = None"
    by (simp_all add: example_nan_scored_def unscored_row_def)
  have e: "fitted (example_unscored ! 1) = 2" by (simp add: example_unscored_def f)
  have v: "zero_at_two 2 = Fin 0" "nan_at_two 1 = Fin 1" "nan_at_two 2 = NaN"
    by (simp_all add: zero_at_two_def nan_at_two_def)
  show ?thesis
    using zero_deviation_raises_nan_passes[of example_unscored zero_at_two
            example_nan_scored example_fdr]
      zero_deviation_raises_nan_passes[of example_unscored nan_at_two
            example_nan_scored example_fdr] h1 h2 run l e v
    by simp
qed

end
